theory Spec2Isabelle
  imports Main "HOL-Library.Sublist" "HOL-Library.Char_ord" "HOL-Library.List_Lexorder"
    "HOL-Library.Multiset"
begin

section \<open>Python string operations used by the script\<close>

text \<open>
  Python strings and byte strings are both modelled as \<open>string\<close> (a list of 8-bit
  characters): a text is represented by its UTF-8 encoding, which is what the script reads
  from and writes to disk. Paths use the POSIX separator \<open>/\<close>.
\<close>

definition sep :: char where
  "sep = CHR ''/''"

definition backslash :: char where
  "backslash = CHR 0x5C"

definition newline :: string where
  "newline = [CHR 0x0A]"

text \<open>\<open>s.endswith(t)\<close>\<close>

definition endswith :: "string \<Rightarrow> string \<Rightarrow> bool" where
  "endswith s t = (length t \<le> length s \<and> drop (length s - length t) s = t)"

text \<open>\<open>s.strip('/')\<close>: leading and trailing separators removed.\<close>

definition strip_sep :: "string \<Rightarrow> string" where
  "strip_sep s = rev (dropWhile (\<lambda>c. c = sep) (rev (dropWhile (\<lambda>c. c = sep) s)))"

text \<open>\<open>s.split(c)\<close>: always at least one piece; the empty string gives one empty piece.\<close>

fun split_on :: "char \<Rightarrow> string \<Rightarrow> string list" where
  "split_on c [] = [[]]"
| "split_on c (x # xs) =
     (if x = c then [] # split_on c xs
      else (case split_on c xs of
              [] \<Rightarrow> [[x]]
            | p # ps \<Rightarrow> (x # p) # ps))"

text \<open>\<open>c.join(parts)\<close>\<close>

fun join_with :: "char \<Rightarrow> string list \<Rightarrow> string" where
  "join_with c [] = []"
| "join_with c [p] = p"
| "join_with c (p # q # ps) = p @ c # join_with c (q # ps)"

text \<open>\<open>s.replace(a, b)\<close> for single characters.\<close>

definition replace_char :: "char \<Rightarrow> char \<Rightarrow> string \<Rightarrow> string" where
  "replace_char a b s = map (\<lambda>c. if c = a then b else c) s"

text \<open>\<open>s.count(c)\<close> for a single character.\<close>

definition count_char :: "char \<Rightarrow> string \<Rightarrow> nat" where
  "count_char c s = length (filter (\<lambda>x. x = c) s)"

text \<open>
  \<open>s.lower()\<close> on the UTF-8 bytes of \<open>s\<close>. An ASCII capital becomes its small
  letter. U+212A KELVIN SIGN (the bytes E2 84 AA) becomes \<open>k\<close>: it is the one code point
  outside ASCII whose lower case is ASCII. Every other byte is left as it is. The lower
  case of any other code point outside ASCII holds a code point outside ASCII, and no lower
  case brings in a dot or a separator; so the extension that \<open>os.path.splitext\<close> finds
  in the result is one of the ASCII extensions of the denylist exactly when it is for
  \<open>str.lower\<close>, which is all that the script uses \<open>lower\<close> for.
\<close>

definition lower_char :: "char \<Rightarrow> char" where
  "lower_char c =
     (case map_of (zip ''ABCDEFGHIJKLMNOPQRSTUVWXYZ'' ''abcdefghijklmnopqrstuvwxyz'') c of
        None \<Rightarrow> c
      | Some l \<Rightarrow> l)"

fun lower :: "string \<Rightarrow> string" where
  "lower (a # b # c # rest) =
     (if a = CHR 0xE2 \<and> b = CHR 0x84 \<and> c = CHR 0xAA then CHR ''k'' # lower rest
      else lower_char a # lower (b # c # rest))"
| "lower (a # rest) = lower_char a # lower rest"
| "lower [] = []"

text \<open>
  \<open>os.path.splitext(p)[1]\<close>: the extension starts at the last dot of the base name,
  unless only dots precede it there (leading dots do not start an extension).
\<close>

definition splitext_ext :: "string \<Rightarrow> string" where
  "splitext_ext p =
     (let base = last (split_on sep p);
          stem = rev (drop 1 (dropWhile (\<lambda>c. c \<noteq> CHR ''.'') (rev base)))
      in if CHR ''.'' \<in> set base \<and> (\<exists>c \<in> set stem. c \<noteq> CHR ''.'')
         then drop (length stem) base
         else [])"

text \<open>
  Whether \<open>content.decode('utf-8')\<close> succeeds: the well-formed byte sequences of UTF-8
  (no overlong forms, no surrogates, nothing above U+10FFFF). On success the text written
  back with \<open>encoding='utf-8'\<close> has the bytes that were read.
\<close>

definition cont_byte :: "nat \<Rightarrow> bool" where
  "cont_byte b = (128 \<le> b \<and> b \<le> 191)"

fun utf8_ok :: "nat list \<Rightarrow> bool" where
  "utf8_ok [] = True"
| "utf8_ok (a # bs) =
     (if a < 128 then utf8_ok bs
      else if 194 \<le> a \<and> a \<le> 223 then
        (case bs of b # r \<Rightarrow> cont_byte b \<and> utf8_ok r | _ \<Rightarrow> False)
      else if 224 \<le> a \<and> a \<le> 239 then
        (case bs of b # c # r \<Rightarrow>
            (if a = 224 then 160 \<le> b \<and> b \<le> 191
             else if a = 237 then 128 \<le> b \<and> b \<le> 159
             else cont_byte b) \<and> cont_byte c \<and> utf8_ok r
         | _ \<Rightarrow> False)
      else if 240 \<le> a \<and> a \<le> 244 then
        (case bs of b # c # d # r \<Rightarrow>
            (if a = 240 then 144 \<le> b \<and> b \<le> 191
             else if a = 244 then 128 \<le> b \<and> b \<le> 143
             else cont_byte b) \<and> cont_byte c \<and> cont_byte d \<and> utf8_ok r
         | _ \<Rightarrow> False)
      else False)"

definition decodes_utf8 :: "string \<Rightarrow> bool" where
  "decodes_utf8 content = utf8_ok (map of_char content)"

text \<open>\<open>str(n)\<close> for the integers that the reports print.\<close>

definition digit_char :: "nat \<Rightarrow> char" where
  "digit_char d = ''0123456789'' ! (d mod 10)"

fun str_nat :: "nat \<Rightarrow> string" where
  "str_nat n = (if n < 10 then [digit_char n] else str_nat (n div 10) @ [digit_char n])"

definition str_int :: "int \<Rightarrow> string" where
  "str_int i = (if i < 0 then CHR ''-'' # str_nat (nat (- i)) else str_nat (nat i))"

section \<open>The workspace and the output file system\<close>

text \<open>
  A path is the list of its components. One entry of \<open>os.walk(repo_dir)\<close> is a
  directory, given by its components below \<open>repo_dir\<close> (the empty list for \<open>repo_dir\<close>
  itself), with the files that it holds in the order of the listing. A file has a name,
  the result of \<open>os.path.getsize\<close> and the bytes that \<open>open(.., 'rb').read()\<close> returns;
  \<open>None\<close> stands for the call raising.
\<close>

type_synonym path = "string list"

record file_entry =
  fname :: string
  fsize :: "nat option"
  fbytes :: "string option"

type_synonym walk = "(path \<times> file_entry list) list"

datatype py_error = OSError | UnicodeEncodeError

text \<open>
  The part of the world that the script changes: the files and directories below the
  output root, and the number of times \<open>datetime.now()\<close> has been read.
\<close>

record world =
  files :: "path \<rightharpoonup> string"
  dirs :: "path set"
  tick :: nat

text \<open>How a command started with \<open>subprocess.run\<close> ends: with an exit status, or with an
  exception (a timeout among them).\<close>

datatype run_result = Exit int | Raised

text \<open>
  What the script takes from its environment: the formatted time at each reading of the
  clock; which paths can be created as directories and which can be opened for writing
  (a failure raises \<open>OSError\<close> and changes nothing); for a file that was opened,
  whether writing it or closing it raises \<open>OSError\<close>, and what the file then holds, and
  whether \<open>os.chmod\<close> succeeds on it; how the two floating-point values
  of the summary are printed (the elapsed seconds between two readings of the clock, and a
  size in MiB); the path that \<open>urlparse\<close> finds in a URL; how each git executable and
  the WSL method end for a URL; the path of the temporary directory, and the walk of the
  tree that a successful clone leaves there.
\<close>

record env =
  clock :: "nat \<Rightarrow> string"
  can_write :: "path \<Rightarrow> bool"
  write_breaks :: "path \<Rightarrow> string option"
  can_chmod :: "path \<Rightarrow> bool"
  can_mkdir :: "path \<Rightarrow> bool"
  elapsed :: "nat \<Rightarrow> nat \<Rightarrow> string"
  fmt_mb :: "nat \<Rightarrow> string"
  url_path :: "string \<Rightarrow> string"
  run_git :: "string \<Rightarrow> string \<Rightarrow> run_result"
  run_wsl :: "string \<Rightarrow> run_result"
  tmp_dir :: path
  cloned :: "string \<Rightarrow> walk"

text \<open>\<open>os.makedirs(p, exist_ok=True)\<close>\<close>

definition makedirs :: "env \<Rightarrow> path \<Rightarrow> world \<Rightarrow> py_error + world" where
  "makedirs e p w =
     (if can_mkdir e p then Inr (w\<lparr>dirs := dirs w \<union> set (prefixes p)\<rparr>) else Inl OSError)"

text \<open>\<open>datetime.now().strftime('%Y-%m-%d %H:%M:%S')\<close>: the reading and the world after it.\<close>

definition now :: "env \<Rightarrow> world \<Rightarrow> string \<times> world" where
  "now e w = (clock e (tick w), w\<lparr>tick := Suc (tick w)\<rparr>)"

section \<open>\<open>extract_code_files\<close>\<close>

definition binary_extensions :: "string set" where
  "binary_extensions = set [
     ''.png'', ''.jpg'', ''.jpeg'', ''.gif'', ''.bmp'', ''.tiff'', ''.ico'', ''.svg'', ''.webp'',
     ''.mp3'', ''.mp4'', ''.wav'', ''.avi'', ''.mov'', ''.mkv'', ''.flv'', ''.ogg'',
     ''.pdf'', ''.ppt'', ''.pptx'', ''.xls'', ''.xlsx'',
     ''.zip'', ''.rar'', ''.7z'', ''.tar'', ''.gz'', ''.bz2'',
     ''.exe'', ''.dll'', ''.so'', ''.dylib'', ''.class'', ''.pyc'', ''.pyo'',
     ''.obj'', ''.o'', ''.a'', ''.lib'', ''.jar'', ''.whl'', ''.egg'',
     ''.db'', ''.sqlite'', ''.sqlite3'', ''.mdb'', ''.dat'', ''.bin'',
     ''.ttf'', ''.otf'', ''.woff'', ''.woff2'', ''.eot'']"

definition git_related_files :: "string list" where
  "git_related_files = [
     ''.gitignore'',
     ''.gitattributes'',
     ''.gitmodules'',
     ''.github_ISSUE_TEMPLATE_bug_report.md'',
     ''CODEOWNERS'',
     ''.mailmap'']"

text \<open>
  \<open>file_path.split(os.sep)\<close> for \<open>file_path = os.path.join(root, file)\<close>: the
  components of \<open>repo_dir\<close>, of the directory below it and the name of the file (the
  empty first piece of an absolute path is left out: it is no name). And
  \<open>os.path.relpath(file_path, repo_dir)\<close>.
\<close>

definition file_path_parts :: "path \<Rightarrow> path \<Rightarrow> string \<Rightarrow> path" where
  "file_path_parts repo_dir root file = repo_dir @ root @ [file]"

definition rel_path_of :: "path \<Rightarrow> string \<Rightarrow> string" where
  "rel_path_of root file = join_with sep (root @ [file])"

text \<open>The conditions of the loop body, in the order in which it tests them.\<close>

definition in_git_dir :: "path \<Rightarrow> path \<Rightarrow> string \<Rightarrow> bool" where
  "in_git_dir repo_dir root file = (''.git'' \<in> set (file_path_parts repo_dir root file))"

definition is_git_related :: "string \<Rightarrow> string \<Rightarrow> bool" where
  "is_git_related file rel_path =
     (file \<in> set git_related_files \<or> list_ex (\<lambda>git_file. endswith rel_path git_file) git_related_files)"

definition in_github_dir :: "path \<Rightarrow> path \<Rightarrow> string \<Rightarrow> bool" where
  "in_github_dir repo_dir root file = (''.github'' \<in> set (file_path_parts repo_dir root file))"

definition has_binary_ext :: "string \<Rightarrow> bool" where
  "has_binary_ext file = (splitext_ext (lower file) \<in> binary_extensions)"

definition safe_name_of :: "string \<Rightarrow> string" where
  "safe_name_of rel_path = replace_char backslash CHR ''_'' (replace_char sep CHR ''_'' rel_path)"

text \<open>The UTF-8 bytes of the two header labels (``file path'' and ``extraction time'').\<close>

definition hdr_path_label :: string where
  "hdr_path_label = ''// '' @ [CHR 0xE6, CHR 0x96, CHR 0x87, CHR 0xE4, CHR 0xBB, CHR 0xB6,
     CHR 0xE8, CHR 0xB7, CHR 0xAF, CHR 0xE5, CHR 0xBE, CHR 0x84] @ '': ''"

definition hdr_time_label :: string where
  "hdr_time_label = ''// '' @ [CHR 0xE6, CHR 0x8F, CHR 0x90, CHR 0xE5, CHR 0x8F, CHR 0x96,
     CHR 0xE6, CHR 0x97, CHR 0xB6, CHR 0xE9, CHR 0x97, CHR 0xB4] @ '': ''"

text \<open>The three \<open>write\<close> calls for a processed file.\<close>

definition annotated :: "string \<Rightarrow> string \<Rightarrow> string \<Rightarrow> string" where
  "annotated rel_path stamp content_str =
     (hdr_path_label @ rel_path @ newline) @
     (hdr_time_label @ stamp @ newline @ newline) @
     content_str"

text \<open>The local variables of \<open>extract_code_files\<close>, with the world that it writes to.\<close>

record xstate =
  processed_files :: "string list"
  skipped_files :: "(string \<times> nat) list"
  skipped_by_extension :: nat
  skipped_by_size :: nat
  skipped_by_decode_error :: nat
  skipped_git_files :: nat
  out :: world

text \<open>
  One pass of the inner loop body, for the file \<open>f\<close> of the directory \<open>root\<close>. Each
  \<open>continue\<close> is a branch that returns the state. The handler of the outer \<open>try\<close> only
  logs, so whatever raises in the copy leaves both lists as they were:
  \<^item> a failing \<open>open\<close>, of the source or of the output file, changes nothing;
  \<^item> the first \<open>write\<close> raises \<open>UnicodeEncodeError\<close> when the relative path is not
    valid UTF-8 (a name with bytes that the file system encoding cannot decode): the output
    file has been created and stays empty, and the clock has not been read;
  \<^item> when writing or closing the output file raises, the file holds what the environment
    says;
  \<^item> when \<open>os.chmod\<close> raises, the output file is complete, and the path is not appended.
\<close>

definition process_file ::
  "env \<Rightarrow> path \<Rightarrow> path \<Rightarrow> nat \<Rightarrow> path \<Rightarrow> file_entry \<Rightarrow> xstate \<Rightarrow> xstate" where
  "process_file e repo_dir output_dir max_size_bytes root f s =
     (let file = fname f;
          rel_path = rel_path_of root file
      in
      if in_git_dir repo_dir root file then s
      else if is_git_related file rel_path then
        s\<lparr>skipped_files := skipped_files s @ [(rel_path, 0)],
          skipped_git_files := skipped_git_files s + 1\<rparr>
      else if in_github_dir repo_dir root file then
        s\<lparr>skipped_files := skipped_files s @ [(rel_path, 0)],
          skipped_git_files := skipped_git_files s + 1\<rparr>
      else if has_binary_ext file then
        s\<lparr>skipped_files := skipped_files s @ [(rel_path, 0)],
          skipped_by_extension := skipped_by_extension s + 1\<rparr>
      else
        (case fsize f of
           None \<Rightarrow> s\<lparr>skipped_files := skipped_files s @ [(rel_path, 0)]\<rparr>
         | Some file_size \<Rightarrow>
             if file_size > max_size_bytes then
               s\<lparr>skipped_files := skipped_files s @ [(rel_path, file_size)],
                 skipped_by_size := skipped_by_size s + 1\<rparr>
             else
               (let output_file = output_dir @ [safe_name_of rel_path] in
                case fbytes f of
                  None \<Rightarrow> s
                | Some content \<Rightarrow>
                    if decodes_utf8 content then
                      (if \<not> can_write e output_file then s
                       else if \<not> decodes_utf8 rel_path then
                         s\<lparr>out := (out s)\<lparr>files := (files (out s))(output_file \<mapsto> [])\<rparr>\<rparr>
                       else
                         (let (stamp, w) = now e (out s) in
                          case write_breaks e output_file of
                            Some leftover \<Rightarrow>
                              s\<lparr>out := w\<lparr>files := (files w)(output_file \<mapsto> leftover)\<rparr>\<rparr>
                          | None \<Rightarrow>
                              (let w' = w\<lparr>files := (files w)(output_file \<mapsto>
                                            annotated rel_path stamp content)\<rparr>
                               in if can_chmod e output_file then
                                    s\<lparr>processed_files := processed_files s @ [rel_path],
                                      out := w'\<rparr>
                                  else s\<lparr>out := w'\<rparr>)))
                    else
                      s\<lparr>skipped_files := skipped_files s @ [(rel_path, file_size)],
                        skipped_by_decode_error := skipped_by_decode_error s + 1\<rparr>)))"

text \<open>The two nested loops over \<open>os.walk(repo_dir)\<close>.\<close>

definition extract_loop ::
  "env \<Rightarrow> path \<Rightarrow> path \<Rightarrow> nat \<Rightarrow> walk \<Rightarrow> xstate \<Rightarrow> xstate" where
  "extract_loop e repo_dir output_dir max_size_bytes wk s0 =
     foldl (\<lambda>s (root, fs).
              foldl (\<lambda>s' f. process_file e repo_dir output_dir max_size_bytes root f s') s fs)
           s0 wk"

definition init_xstate :: "world \<Rightarrow> xstate" where
  "init_xstate w =
     \<lparr>processed_files = [], skipped_files = [], skipped_by_extension = 0,
      skipped_by_size = 0, skipped_by_decode_error = 0, skipped_git_files = 0, out = w\<rparr>"

text \<open>
  The function up to its \<open>return\<close>, with all its local variables; \<open>os.makedirs\<close> at its
  start is outside any \<open>try\<close>, so its failure is the failure of the call.
\<close>

definition extract_run ::
  "env \<Rightarrow> path \<Rightarrow> path \<Rightarrow> nat \<Rightarrow> walk \<Rightarrow> world \<Rightarrow> py_error + xstate" where
  "extract_run e repo_dir output_dir max_size_mb wk w =
     (case makedirs e output_dir w of
        Inl err \<Rightarrow> Inl err
      | Inr w1 \<Rightarrow>
          Inr (extract_loop e repo_dir output_dir (max_size_mb * 1024 * 1024) wk (init_xstate w1)))"

text \<open>What the function returns: the two lists and the count of git-related files.\<close>

definition extract_code_files ::
  "env \<Rightarrow> path \<Rightarrow> path \<Rightarrow> nat \<Rightarrow> walk \<Rightarrow> world
     \<Rightarrow> py_error + (string list \<times> (string \<times> nat) list \<times> nat) \<times> world" where
  "extract_code_files e repo_dir output_dir max_size_mb wk w =
     (case extract_run e repo_dir output_dir max_size_mb wk w of
        Inl err \<Rightarrow> Inl err
      | Inr s \<Rightarrow> Inr ((processed_files s, skipped_files s, skipped_git_files s), out s))"

section \<open>\<open>generate_file_structure\<close>\<close>

text \<open>The UTF-8 bytes of the title (``repository file directory structure'') and of the
  label of the time line (``generation time'').\<close>

definition structure_title :: string where
  "structure_title = [CHR 0xE4, CHR 0xBB, CHR 0x93, CHR 0xE5, CHR 0xBA, CHR 0x93, CHR 0xE6,
     CHR 0x96, CHR 0x87, CHR 0xE4, CHR 0xBB, CHR 0xB6, CHR 0xE7, CHR 0x9B, CHR 0xAE,
     CHR 0xE5, CHR 0xBD, CHR 0x95, CHR 0xE7, CHR 0xBB, CHR 0x93, CHR 0xE6, CHR 0x9E,
     CHR 0x84]"

definition structure_time_label :: string where
  "structure_time_label = [CHR 0xE7, CHR 0x94, CHR 0x9F, CHR 0xE6, CHR 0x88, CHR 0x90,
     CHR 0xE6, CHR 0x97, CHR 0xB6, CHR 0xE9, CHR 0x97, CHR 0xB4] @ '': ''"

text \<open>The lines written for one directory of the walk: its own line, unless it is the
  root, and one line for each of its files, sorted.\<close>

definition structure_entry :: "path \<Rightarrow> string list \<Rightarrow> string list" where
  "structure_entry root file_names =
     (let rel_path = (if root = [] then ''.'' else join_with sep root);
          level = (if rel_path = ''.'' then 0 else count_char sep rel_path + 1);
          indent = concat (replicate level ''  '');
          sub_indent = concat (replicate (level + 1) ''  '')
      in (if rel_path \<noteq> ''.'' then [indent @ last root @ ''/'' @ newline] else []) @
         map (\<lambda>file. sub_indent @ file @ newline) (sort file_names))"

text \<open>The strings that the calls of \<open>write\<close> are given, in their order: the title, the
  line with the time and an empty line, and then the lines of the directories of the walk.\<close>

definition structure_lines :: "walk \<Rightarrow> string list" where
  "structure_lines wk = concat (map (\<lambda>(root, fs). structure_entry root (map fname fs)) wk)"

definition structure_writes :: "string \<Rightarrow> walk \<Rightarrow> string list" where
  "structure_writes stamp wk =
     [structure_title @ newline, structure_time_label @ stamp @ newline @ newline]
     @ structure_lines wk"

definition structure_body :: "walk \<Rightarrow> string" where
  "structure_body wk = concat (structure_lines wk)"

definition structure_text :: "string \<Rightarrow> walk \<Rightarrow> string" where
  "structure_text stamp wk =
     (structure_title @ newline) @
     (structure_time_label @ stamp @ newline @ newline) @
     structure_body wk"

text \<open>
  The function either returns, or raises and leaves the world that comes with the error.
  A failing \<open>open\<close> changes nothing. A \<open>write\<close> raises \<open>UnicodeEncodeError\<close> when its
  string is not valid UTF-8 (the name of a file or of a directory with bytes that the file
  system encoding cannot decode): the report then ends before that line. When writing or
  closing the file raises \<open>OSError\<close>, the file holds what the environment says.
\<close>

definition generate_file_structure ::
  "env \<Rightarrow> walk \<Rightarrow> path \<Rightarrow> world \<Rightarrow> (py_error \<times> world) + world" where
  "generate_file_structure e wk output_file w =
     (if \<not> can_write e output_file then Inl (OSError, w)
      else
        (let (stamp, w1) = now e w;
             writes = structure_writes stamp wk;
             encoded = takeWhile decodes_utf8 writes
         in if length encoded < length writes then
              Inl (UnicodeEncodeError,
                   w1\<lparr>files := (files w1)(output_file \<mapsto> concat encoded)\<rparr>)
            else
              (case write_breaks e output_file of
                 Some leftover \<Rightarrow>
                   Inl (OSError, w1\<lparr>files := (files w1)(output_file \<mapsto> leftover)\<rparr>)
               | None \<Rightarrow>
                   Inr (w1\<lparr>files := (files w1)(output_file \<mapsto> concat writes)\<rparr>))))"

section \<open>\<open>get_repo_name_from_url\<close> and \<open>clone_repository\<close>\<close>

text \<open>\<open>urlparse(repo_url).path\<close> is taken from the environment.\<close>

definition get_repo_name_from_url :: "env \<Rightarrow> string \<Rightarrow> string option" where
  "get_repo_name_from_url e repo_url =
     (let path_parts = split_on sep (strip_sep (url_path e repo_url))
      in if length path_parts < 2 then None
         else (let repo_name = path_parts ! 1
               in Some (if endswith repo_name ''.git''
                        then take (length repo_name - 4) repo_name
                        else repo_name)))"

definition git_paths :: "string list" where
  "git_paths = [
     ''C:'' @ [backslash] @ ''Program Files'' @ [backslash] @ ''Git'' @ [backslash] @ ''bin''
       @ [backslash] @ ''git.exe'',
     ''C:'' @ [backslash] @ ''Program Files (x86)'' @ [backslash] @ ''Git'' @ [backslash] @ ''bin''
       @ [backslash] @ ''git.exe'',
     ''git'']"

text \<open>
  The first method: each git executable in turn; a non-zero exit status and an exception
  (a timeout among them) both lead to the next one.
\<close>

fun try_git_paths :: "env \<Rightarrow> string \<Rightarrow> string list \<Rightarrow> bool" where
  "try_git_paths e repo_url [] = False"
| "try_git_paths e repo_url (git_path # rest) =
     (case run_git e git_path repo_url of
        Exit returncode \<Rightarrow> if returncode = 0 then True else try_git_paths e repo_url rest
      | Raised \<Rightarrow> try_git_paths e repo_url rest)"

definition clone_repository :: "env \<Rightarrow> string \<Rightarrow> bool" where
  "clone_repository e repo_url =
     (if try_git_paths e repo_url git_paths then True
      else (case run_wsl e repo_url of
              Exit returncode \<Rightarrow> returncode = 0
            | Raised \<Rightarrow> False))"

section \<open>\<open>process_repository\<close>\<close>

text \<open>The UTF-8 bytes of the labels of the failure record and of the summary.\<close>

definition fail_time_label :: string where
  "fail_time_label = [CHR 0xE5, CHR 0x85, CHR 0x8B, CHR 0xE9, CHR 0x9A, CHR 0x86, CHR 0xE5,
     CHR 0xA4, CHR 0xB1, CHR 0xE8, CHR 0xB4, CHR 0xA5, CHR 0xE6, CHR 0x97, CHR 0xB6,
     CHR 0xE9, CHR 0x97, CHR 0xB4] @ '': ''"

definition fail_url_label :: string where
  "fail_url_label = [CHR 0xE4, CHR 0xBB, CHR 0x93, CHR 0xE5, CHR 0xBA, CHR 0x93] @
     ''URL: ''"

definition fail_message :: string where
  "fail_message = [CHR 0xE9, CHR 0x94, CHR 0x99, CHR 0xE8, CHR 0xAF, CHR 0xAF, CHR 0xE4,
     CHR 0xBF, CHR 0xA1, CHR 0xE6, CHR 0x81, CHR 0xAF] @ '': '' @ [CHR 0xE6, CHR 0x89,
     CHR 0x80, CHR 0xE6, CHR 0x9C, CHR 0x89, CHR 0xE5, CHR 0x85, CHR 0x8B, CHR 0xE9,
     CHR 0x9A, CHR 0x86, CHR 0xE6, CHR 0x96, CHR 0xB9, CHR 0xE6, CHR 0xB3, CHR 0x95,
     CHR 0xE9, CHR 0x83, CHR 0xBD, CHR 0xE5, CHR 0xA4, CHR 0xB1, CHR 0xE8, CHR 0xB4,
     CHR 0xA5]"

definition sum_title_label :: string where
  "sum_title_label = [CHR 0xE4, CHR 0xBB, CHR 0x93, CHR 0xE5, CHR 0xBA, CHR 0x93, CHR 0xE5,
     CHR 0xA4, CHR 0x84, CHR 0xE7, CHR 0x90, CHR 0x86, CHR 0xE6, CHR 0x91, CHR 0x98,
     CHR 0xE8, CHR 0xA6, CHR 0x81] @ '': ''"

definition sum_url_label :: string where
  "sum_url_label = [CHR 0xE6, CHR 0xBA, CHR 0x90] @ '' URL: ''"

definition sum_start_label :: string where
  "sum_start_label = [CHR 0xE5, CHR 0xBC, CHR 0x80, CHR 0xE5, CHR 0xA7, CHR 0x8B, CHR 0xE6,
     CHR 0x97, CHR 0xB6, CHR 0xE9, CHR 0x97, CHR 0xB4] @ '': ''"

definition sum_end_label :: string where
  "sum_end_label = [CHR 0xE5, CHR 0xAE, CHR 0x8C, CHR 0xE6, CHR 0x88, CHR 0x90, CHR 0xE6,
     CHR 0x97, CHR 0xB6, CHR 0xE9, CHR 0x97, CHR 0xB4] @ '': ''"

definition sum_duration_label :: string where
  "sum_duration_label = [CHR 0xE5, CHR 0xA4, CHR 0x84, CHR 0xE7, CHR 0x90, CHR 0x86,
     CHR 0xE6, CHR 0x97, CHR 0xB6, CHR 0xE9, CHR 0x95, CHR 0xBF] @ '': ''"

definition sum_seconds :: string where
  "sum_seconds = '' '' @ [CHR 0xE7, CHR 0xA7, CHR 0x92]"

definition sum_processed_label :: string where
  "sum_processed_label = [CHR 0xE5, CHR 0xB7, CHR 0xB2, CHR 0xE5, CHR 0xA4, CHR 0x84,
     CHR 0xE7, CHR 0x90, CHR 0x86, CHR 0xE6, CHR 0x96, CHR 0x87, CHR 0xE4, CHR 0xBB,
     CHR 0xB6, CHR 0xE6, CHR 0x95, CHR 0xB0] @ '': ''"

definition sum_skipped_label :: string where
  "sum_skipped_label = [CHR 0xE8, CHR 0xB7, CHR 0xB3, CHR 0xE8, CHR 0xBF, CHR 0x87,
     CHR 0xE7, CHR 0x9A, CHR 0x84, CHR 0xE6, CHR 0x96, CHR 0x87, CHR 0xE4, CHR 0xBB,
     CHR 0xB6, CHR 0xE6, CHR 0x80, CHR 0xBB, CHR 0xE6, CHR 0x95, CHR 0xB0] @ '': ''"

definition sum_detail_label :: string where
  "sum_detail_label = [CHR 0xE8, CHR 0xB7, CHR 0xB3, CHR 0xE8, CHR 0xBF, CHR 0x87,
     CHR 0xE6, CHR 0x96, CHR 0x87, CHR 0xE4, CHR 0xBB, CHR 0xB6, CHR 0xE8, CHR 0xAF,
     CHR 0xA6, CHR 0xE6, CHR 0x83, CHR 0x85] @ '':''"

definition sum_git_label :: string where
  "sum_git_label = ''  Git'' @ [CHR 0xE7, CHR 0x9B, CHR 0xB8, CHR 0xE5, CHR 0x85, CHR 0xB3,
     CHR 0xE6, CHR 0x96, CHR 0x87, CHR 0xE4, CHR 0xBB, CHR 0xB6] @ '': ''"

definition sum_unit :: string where
  "sum_unit = [CHR 0xE4, CHR 0xB8, CHR 0xAA]"

definition sum_ext_label :: string where
  "sum_ext_label = ''  '' @ [CHR 0xE5, CHR 0x9F, CHR 0xBA, CHR 0xE4, CHR 0xBA, CHR 0x8E,
     CHR 0xE6, CHR 0x96, CHR 0x87, CHR 0xE4, CHR 0xBB, CHR 0xB6, CHR 0xE6, CHR 0x89,
     CHR 0xA9, CHR 0xE5, CHR 0xB1, CHR 0x95, CHR 0xE5, CHR 0x90, CHR 0x8D] @ '': ''"

definition sum_size_label :: string where
  "sum_size_label = ''  '' @ [CHR 0xE6, CHR 0x96, CHR 0x87, CHR 0xE4, CHR 0xBB, CHR 0xB6,
     CHR 0xE8, CHR 0xBF, CHR 0x87, CHR 0xE5, CHR 0xA4, CHR 0xA7] @ '' (>''"

definition sum_others_label :: string where
  "sum_others_label = ''  '' @ [CHR 0xE8, CHR 0xA7, CHR 0xA3, CHR 0xE7, CHR 0xA0, CHR 0x81,
     CHR 0xE9, CHR 0x94, CHR 0x99, CHR 0xE8, CHR 0xAF, CHR 0xAF, CHR 0xE6, CHR 0x88,
     CHR 0x96, CHR 0xE5, CHR 0x85, CHR 0xB6, CHR 0xE4, CHR 0xBB, CHR 0x96, CHR 0xE5,
     CHR 0x8E, CHR 0x9F, CHR 0xE5, CHR 0x9B, CHR 0xA0] @ '': ''"

definition sum_large_label :: string where
  "sum_large_label = [CHR 0xE8, CHR 0xB7, CHR 0xB3, CHR 0xE8, CHR 0xBF, CHR 0x87, CHR 0xE7,
     CHR 0x9A, CHR 0x84, CHR 0xE5, CHR 0xA4, CHR 0xA7, CHR 0xE6, CHR 0x96, CHR 0x87,
     CHR 0xE4, CHR 0xBB, CHR 0xB6] @ '' (>''"

definition failure_text :: "string \<Rightarrow> string \<Rightarrow> string" where
  "failure_text stamp repo_url =
     (fail_time_label @ stamp @ newline) @
     (fail_url_label @ repo_url @ newline @ newline) @
     (fail_message @ newline)"

text \<open>
  The three counts that the summary computes from the returned list of skipped files, the
  third as the remainder; Python's integers are unbounded and signed.
\<close>

definition count_by_extension :: "(string \<times> nat) list \<Rightarrow> int" where
  "count_by_extension skipped = int (length (filter (\<lambda>(_, size). size = 0) skipped))"

definition count_by_size :: "nat \<Rightarrow> (string \<times> nat) list \<Rightarrow> int" where
  "count_by_size max_size_mb skipped =
     int (length (filter (\<lambda>(_, size). size > max_size_mb * 1024 * 1024) skipped))"

definition count_others :: "nat \<Rightarrow> (string \<times> nat) list \<Rightarrow> nat \<Rightarrow> int" where
  "count_others max_size_mb skipped git_count =
     int (length skipped) - count_by_extension skipped - count_by_size max_size_mb skipped
       - int git_count"

definition large_files :: "nat \<Rightarrow> (string \<times> nat) list \<Rightarrow> (string \<times> nat) list" where
  "large_files max_size_mb skipped = filter (\<lambda>(_, size). size > max_size_mb * 1024 * 1024) skipped"

definition summary_text ::
  "env \<Rightarrow> string \<Rightarrow> string \<Rightarrow> nat \<Rightarrow> nat \<Rightarrow> nat
     \<Rightarrow> string list \<Rightarrow> (string \<times> nat) list \<Rightarrow> nat \<Rightarrow> string" where
  "summary_text e repo_name repo_url t_start t_end max_size_mb processed skipped git_count =
     (sum_title_label @ repo_name @ newline) @
     (sum_url_label @ repo_url @ newline) @
     (sum_start_label @ clock e t_start @ newline) @
     (sum_end_label @ clock e t_end @ newline) @
     (sum_duration_label @ elapsed e t_start t_end @ sum_seconds @ newline @ newline) @
     (sum_processed_label @ str_nat (length processed) @ newline) @
     (sum_skipped_label @ str_nat (length skipped) @ newline @ newline) @
     (sum_detail_label @ newline) @
     (sum_git_label @ str_nat git_count @ sum_unit @ newline) @
     (sum_ext_label @ str_int (count_by_extension skipped) @ sum_unit @ newline) @
     (sum_size_label @ str_nat max_size_mb @ ''MB): ''
        @ str_int (count_by_size max_size_mb skipped) @ sum_unit @ newline) @
     (sum_others_label @ str_int (count_others max_size_mb skipped git_count) @ sum_unit
        @ newline @ newline) @
     (if large_files max_size_mb skipped \<noteq> [] then
        (sum_large_label @ str_nat max_size_mb @ ''MB):'' @ newline) @
        concat (map (\<lambda>(file_path, size). ''  '' @ file_path @ '': '' @ fmt_mb e size @ '' MB''
                       @ newline)
                    (large_files max_size_mb skipped))
      else [])"

text \<open>
  How a call ends. The function returns \<open>None\<close> on every path; the tag tells which
  \<open>return\<close> was taken, or that the handler \<open>except Exception\<close> caught an error.
\<close>

datatype outcome = InvalidURL | CloneFailed | Completed | Caught py_error

text \<open>
  The body of the function. The temporary directory lies outside the output root and is
  removed in the \<open>finally\<close> clause, so it is not part of the world; the tree that a
  successful clone leaves there is \<open>cloned e repo_url\<close>, at the path \<open>tmp_dir e\<close>.
  The passes over the clone that count files and reset permissions write nothing and are
  left out. The calls on the temporary directory and the last three \<open>os.chmod\<close> calls,
  on files that the function has just written, are taken to succeed, and so are the writes
  to the three files that the function opens itself; every other failure is a failing
  \<open>makedirs\<close> or \<open>open\<close> or an error of the structure report, which the handler
  catches: the function then returns with what had been written before.
\<close>

definition process_repository :: "env \<Rightarrow> string \<Rightarrow> path \<Rightarrow> world \<Rightarrow> outcome \<times> world" where
  "process_repository e repo_url output_base_dir w0 =
     (let (start_time, w) = now e w0 in
      case get_repo_name_from_url e repo_url of
        None \<Rightarrow> (InvalidURL, w)
      | Some repo_name \<Rightarrow>
          if repo_name = [] then (InvalidURL, w)
          else
            (let repo_output_dir = output_base_dir @ [repo_name] in
             case makedirs e repo_output_dir w of
               Inl err \<Rightarrow> (Caught err, w)
             | Inr w1 \<Rightarrow>
                 if \<not> clone_repository e repo_url then
                   (let failure_file = repo_output_dir @ [repo_name @ ''_clone_failed.txt'']
                    in if can_write e failure_file then
                         (let (stamp, w2) = now e w1
                          in (CloneFailed,
                              w2\<lparr>files := (files w2)(failure_file \<mapsto>
                                    failure_text stamp repo_url)\<rparr>))
                       else (Caught OSError, w1))
                 else
                   (let structure_file = repo_output_dir @ [repo_name @ ''_file_structure.txt''];
                        general_file = repo_output_dir @ [repo_name @ ''_general_summary.txt''];
                        summary_file = repo_output_dir @ [repo_name @ ''_processing_summary.txt''];
                        code_output_dir = repo_output_dir @ [''code_files''];
                        max_size_mb = 15
                    in case generate_file_structure e (cloned e repo_url) structure_file w1 of
                         Inl (err, w2) \<Rightarrow> (Caught err, w2)
                       | Inr w2 \<Rightarrow>
                           if \<not> can_write e general_file then (Caught OSError, w2)
                           else
                             (let w3 = w2\<lparr>files := (files w2)(general_file \<mapsto> [])\<rparr> in
                              case extract_code_files e (tmp_dir e) code_output_dir max_size_mb
                                     (cloned e repo_url) w3 of
                                Inl err \<Rightarrow> (Caught err, w3)
                              | Inr ((processed, skipped, git_count), w4) \<Rightarrow>
                                  (let (end_time, w5) = now e w4 in
                                   if can_write e summary_file then
                                     (Completed,
                                      w5\<lparr>files := (files w5)(summary_file \<mapsto>
                                            summary_text e repo_name repo_url (tick w0) (tick w4)
                                              max_size_mb processed skipped git_count)\<rparr>)
                                   else (Caught OSError, w5))))))"

section \<open>Notions used to state the properties\<close>

text \<open>The files of a walk in the order in which the loops visit them, each with its
  directory.\<close>

definition walk_files :: "walk \<Rightarrow> (path \<times> file_entry) list" where
  "walk_files wk = concat (map (\<lambda>(root, fs). map (Pair root) fs) wk)"

text \<open>
  How far the loop body gets with a file. It reaches the copy when no filter takes the file
  and its size can be read and is within the limit. It opens the output file when, further,
  the file can be read, its bytes are valid UTF-8 and the output file can be opened. It
  reads the clock when, further, the relative path is valid UTF-8, so that the first header
  line can be written. It reaches the end of its last branch, where the path is appended to
  the list of processed files, when, further, writing and closing the output file and
  \<open>os.chmod\<close> succeed.
\<close>

definition reaches_copy :: "path \<Rightarrow> nat \<Rightarrow> path \<Rightarrow> file_entry \<Rightarrow> bool" where
  "reaches_copy repo_dir max_size_bytes root f =
     (\<not> in_git_dir repo_dir root (fname f)
      \<and> \<not> is_git_related (fname f) (rel_path_of root (fname f))
      \<and> \<not> in_github_dir repo_dir root (fname f)
      \<and> \<not> has_binary_ext (fname f)
      \<and> (case fsize f of None \<Rightarrow> False | Some n \<Rightarrow> n \<le> max_size_bytes))"

definition opens_output :: "env \<Rightarrow> path \<Rightarrow> path \<Rightarrow> nat \<Rightarrow> path \<Rightarrow> file_entry \<Rightarrow> bool" where
  "opens_output e repo_dir output_dir max_size_bytes root f =
     (reaches_copy repo_dir max_size_bytes root f
      \<and> (case fbytes f of None \<Rightarrow> False | Some content \<Rightarrow> decodes_utf8 content)
      \<and> can_write e (output_dir @ [safe_name_of (rel_path_of root (fname f))]))"

definition reads_clock :: "env \<Rightarrow> path \<Rightarrow> path \<Rightarrow> nat \<Rightarrow> path \<Rightarrow> file_entry \<Rightarrow> bool" where
  "reads_clock e repo_dir output_dir max_size_bytes root f =
     (opens_output e repo_dir output_dir max_size_bytes root f
      \<and> decodes_utf8 (rel_path_of root (fname f)))"

definition is_processed :: "env \<Rightarrow> path \<Rightarrow> path \<Rightarrow> nat \<Rightarrow> path \<Rightarrow> file_entry \<Rightarrow> bool" where
  "is_processed e repo_dir output_dir max_size_bytes root f =
     (reads_clock e repo_dir output_dir max_size_bytes root f
      \<and> write_breaks e (output_dir @ [safe_name_of (rel_path_of root (fname f))]) = None
      \<and> can_chmod e (output_dir @ [safe_name_of (rel_path_of root (fname f))]))"

text \<open>
  The conditions under which the handler of the outer \<open>try\<close> is reached: the file
  reaches the copy, and then it cannot be read, or its bytes are valid UTF-8 and something
  on the way to the end of the last branch raises.
\<close>

definition copy_fails :: "env \<Rightarrow> path \<Rightarrow> path \<Rightarrow> nat \<Rightarrow> path \<Rightarrow> file_entry \<Rightarrow> bool" where
  "copy_fails e repo_dir output_dir max_size_bytes root f =
     (reaches_copy repo_dir max_size_bytes root f
      \<and> (case fbytes f of None \<Rightarrow> True | Some content \<Rightarrow> decodes_utf8 content)
      \<and> \<not> is_processed e repo_dir output_dir max_size_bytes root f)"

text \<open>Two listings of one tree: the same directories in the same order, each with the same
  file names, in any order.\<close>

definition same_tree :: "walk \<Rightarrow> walk \<Rightarrow> bool" where
  "same_tree wk wk' =
     list_all2 (\<lambda>(root, fs) (root', fs'). root = root' \<and> mset (map fname fs) = mset (map fname fs'))
       wk wk'"

text \<open>
  The words of the specification for the name of a repository: the segments of the path of
  the URL, and the second segment with a trailing \<open>.git\<close> removed.
\<close>

definition url_segments :: "env \<Rightarrow> string \<Rightarrow> string list" where
  "url_segments e repo_url = split_on sep (strip_sep (url_path e repo_url))"

definition derived_name :: "string list \<Rightarrow> string" where
  "derived_name segments =
     (case segments of
        owner # second # rest \<Rightarrow>
          if endswith second ''.git'' then take (length second - 4) second else second
      | _ \<Rightarrow> [])"

text \<open>
  What a walk of a real directory tree satisfies: no directory is listed twice, no directory
  holds two files of one name, and no name contains the separator.
\<close>

definition well_formed_walk :: "walk \<Rightarrow> bool" where
  "well_formed_walk wk =
     (distinct (map fst wk)
      \<and> (\<forall>(root, fs) \<in> set wk.
            distinct (map fname fs)
            \<and> (\<forall>name \<in> set root \<union> fname ` set fs. sep \<notin> set name)))"

section \<open>Example inputs\<close>

text \<open>
  An environment in which every write succeeds and the clock shows a new second at each
  reading; the first git executable succeeds or every method fails, and a successful clone
  leaves the tree \<open>wk\<close>.
\<close>

definition example_env :: "bool \<Rightarrow> walk \<Rightarrow> env" where
  "example_env clone_ok wk =
     \<lparr>clock = (\<lambda>n. ''2024-01-01 00:00:0'' @ str_nat n),
      can_write = (\<lambda>_. True),
      write_breaks = (\<lambda>_. None),
      can_chmod = (\<lambda>_. True),
      can_mkdir = (\<lambda>_. True),
      elapsed = (\<lambda>_ _. ''0.00''),
      fmt_mb = (\<lambda>_. ''16.00''),
      url_path = drop (length ''https://github.com''),
      run_git = (\<lambda>_ _. if clone_ok then Exit 0 else Exit 128),
      run_wsl = (\<lambda>_. Raised),
      tmp_dir = [''tmp'', ''tmpab12cd''],
      cloned = (\<lambda>_. wk)\<rparr>"

definition empty_world :: world where
  "empty_world = \<lparr>files = Map.empty, dirs = {}, tick = 0\<rparr>"

definition file_of :: "string \<Rightarrow> nat \<Rightarrow> string \<Rightarrow> file_entry" where
  "file_of name n content = \<lparr>fname = name, fsize = Some n, fbytes = Some content\<rparr>"

text \<open>Two listings of one tree that differ in the order of the files of the root.\<close>

definition listing_a :: walk where
  "listing_a = [([], [file_of ''b.txt'' 1 ''b'', file_of ''a.txt'' 1 ''a'']),
                ([''src''], [file_of ''m.py'' 1 ''m''])]"

definition listing_b :: walk where
  "listing_b = [([], [file_of ''a.txt'' 1 ''a'', file_of ''b.txt'' 1 ''b'']),
                ([''src''], [file_of ''m.py'' 1 ''m''])]"

text \<open>A clone that holds a single file, \<open>.gitignore\<close>.\<close>

definition gitignore_tree :: walk where
  "gitignore_tree = [([], [file_of ''.gitignore'' 6 ''*.pyc ''])]"

text \<open>An output root in which an earlier run for the repository \<open>repo\<close> has left files.\<close>

definition previous_world :: world where
  "previous_world =
     \<lparr>files = [[''out'', ''repo'', ''repo_processing_summary.txt''] \<mapsto> ''old summary'',
               [''out'', ''repo'', ''code_files'', ''a.py''] \<mapsto> ''old copy''],
      dirs = {[], [''out''], [''out'', ''repo''], [''out'', ''repo'', ''code_files'']},
      tick = 0\<rparr>"

section \<open>The loops as one pass over the files\<close>

lemma foldl_inner_pairs:
  "foldl (\<lambda>s' f. g root f s') s fs = foldl (\<lambda>s' (r, f). g r f s') s (map (Pair root) fs)"
  by (induction fs arbitrary: s) simp_all

lemma foldl_nested_walk:
  "foldl (\<lambda>s (root, fs). foldl (\<lambda>s' f. g root f s') s fs) s0 wk
     = foldl (\<lambda>s (root, f). g root f s) s0 (walk_files wk)"
proof (induction wk arbitrary: s0)
  case Nil
  show ?case by (simp add: walk_files_def)
next
  case (Cons a wk)
  obtain root fs where a: "a = (root, fs)" by (cases a)
  have "walk_files (a # wk) = map (Pair root) fs @ walk_files wk"
    by (simp add: walk_files_def a)
  then show ?case
    using Cons.IH by (simp add: a foldl_inner_pairs [of g root])
qed

lemma extract_loop_flat:
  "extract_loop e repo_dir output_dir m wk s0
     = foldl (\<lambda>s (root, f). process_file e repo_dir output_dir m root f s) s0 (walk_files wk)"
  unfolding extract_loop_def by (rule foldl_nested_walk)

text \<open>What one element of a fold establishes, and every later step keeps, holds at the end.\<close>

lemma foldl_keeps:
  assumes "x \<in> set xs"
    and "\<And>s. P (step s x)"
    and "\<And>s y. P s \<Longrightarrow> P (step s y)"
  shows "P (foldl step s0 xs)"
  using assms(1)
proof (induction xs arbitrary: s0 rule: rev_induct)
  case Nil
  then show ?case by simp
next
  case (snoc y ys)
  show ?case
  proof (cases "x = y")
    case True
    have "P (step (foldl step s0 ys) x)" by (rule assms(2))
    with True show ?thesis by simp
  next
    case False
    with snoc.prems have "x \<in> set ys" by simp
    then have "P (foldl step s0 ys)" by (rule snoc.IH)
    then show ?thesis by (simp add: assms(3))
  qed
qed

lemma process_file_skipped_mono:
  "set (skipped_files s) \<subseteq> set (skipped_files (process_file e repo_dir output_dir m root f s))"
  by (auto simp: process_file_def Let_def now_def split: option.splits)

lemma skipped_record_kept:
  assumes "(root, f) \<in> set (walk_files wk)"
    and "extract_run e repo_dir output_dir max_size_mb wk w = Inr st"
    and "\<And>s. r \<in> set (skipped_files
            (process_file e repo_dir output_dir (max_size_mb * 1024 * 1024) root f s))"
  shows "r \<in> set (skipped_files st)"
proof -
  let ?P = "\<lambda>s. r \<in> set (skipped_files s)"
  let ?step = "\<lambda>s (d, g). process_file e repo_dir output_dir (max_size_mb * 1024 * 1024) d g s"
  from assms(2) obtain w1 where st: "st = foldl ?step (init_xstate w1) (walk_files wk)"
    by (auto simp: extract_run_def extract_loop_flat split: sum.splits)
  have "?P (foldl ?step (init_xstate w1) (walk_files wk))"
  proof (rule foldl_keeps [where x = "(root, f)"])
    show "(root, f) \<in> set (walk_files wk)" by (rule assms(1))
    show "?P (?step s (root, f))" for s using assms(3) [of s] by simp
    show "?P (?step s y)" if "?P s" for s y
      using that process_file_skipped_mono [of s e repo_dir output_dir _ "fst y" "snd y"]
      by (cases y) auto
  qed
  then show ?thesis by (simp add: st)
qed

text \<open>The definitions that decide the conditions of the loop body on a concrete name.\<close>

lemmas cond_defs = in_git_dir_def is_git_related_def in_github_dir_def has_binary_ext_def
  file_path_parts_def rel_path_of_def git_related_files_def binary_extensions_def
  splitext_ext_def lower_char_def endswith_def sep_def

lemmas run_defs = extract_run_def makedirs_def example_env_def extract_loop_def init_xstate_def
  process_file_def file_of_def empty_world_def

text \<open>The lower case of a name with the Kelvin sign has the ASCII letter.\<close>

lemma lower_kelvin_sign:
  "lower (''clip.M'' @ [CHR 0xE2, CHR 0x84, CHR 0xAA] @ ''V'') = ''clip.mkv''"
  "has_binary_ext (''clip.M'' @ [CHR 0xE2, CHR 0x84, CHR 0xAA] @ ''V'')"
  by (simp_all add: cond_defs)

section \<open>Oversized files\<close>

text \<open>
  C1 as it is stated does not hold: the size is read only after the extension filter. A
  file \<open>big.png\<close> of 16 MiB, above the limit of 15 MiB, is recorded with the size 0 and
  counted as filtered by its extension; the counter of oversized files stays at 0.
\<close>

theorem oversized_png_counterexample:
  "(case extract_run (example_env True []) [''tmp'', ''tmpab12cd''] [''out''] 15
       [([], [file_of ''big.png'' 16777216 ''x''])] empty_world of
      Inl err \<Rightarrow> False
    | Inr s \<Rightarrow> 16777216 > (15::nat) * 1024 * 1024 \<and> skipped_files s = [(''big.png'', 0)] \<and>
        skipped_by_size s = 0 \<and> skipped_by_extension s = 1)"
  by (simp add: run_defs cond_defs)

text \<open>
  C1, amended: a file that none of the earlier rules takes (no \<open>.git\<close> component in its
  path, no git-related name, no \<open>.github\<close> component, no extension of the denylist),
  whose size can be read and strictly exceeds \<open>max_size_mb\<close> MiB, is skipped as
  oversized: the loop body appends the record of its relative path with its true size,
  adds one to the counter of oversized files and changes nothing else (the file is never
  opened); and the record is in the list of skipped files that the run ends with, whatever
  the content of the file.
\<close>

theorem oversized_skipped:
  assumes "\<not> in_git_dir repo_dir root (fname f)"
    and "\<not> is_git_related (fname f) (rel_path_of root (fname f))"
    and "\<not> in_github_dir repo_dir root (fname f)"
    and "\<not> has_binary_ext (fname f)"
    and "fsize f = Some file_size"
    and "file_size > max_size_mb * 1024 * 1024"
  shows "process_file e repo_dir output_dir (max_size_mb * 1024 * 1024) root f s
           = s\<lparr>skipped_files := skipped_files s @ [(rel_path_of root (fname f), file_size)],
               skipped_by_size := skipped_by_size s + 1\<rparr>
         \<and> (\<forall>wk w st. (root, f) \<in> set (walk_files wk)
               \<and> extract_run e repo_dir output_dir max_size_mb wk w = Inr st
               \<longrightarrow> (rel_path_of root (fname f), file_size) \<in> set (skipped_files st))"
proof (intro conjI allI impI)
  show step: "process_file e repo_dir output_dir (max_size_mb * 1024 * 1024) root f s
           = s\<lparr>skipped_files := skipped_files s @ [(rel_path_of root (fname f), file_size)],
               skipped_by_size := skipped_by_size s + 1\<rparr>" for s
    using assms by (simp add: process_file_def)
  fix wk w st
  assume a: "(root, f) \<in> set (walk_files wk)
               \<and> extract_run e repo_dir output_dir max_size_mb wk w = Inr st"
  show "(rel_path_of root (fname f), file_size) \<in> set (skipped_files st)"
  proof (rule skipped_record_kept)
    show "(root, f) \<in> set (walk_files wk)" using a by simp
    show "extract_run e repo_dir output_dir max_size_mb wk w = Inr st" using a by simp
    show "(rel_path_of root (fname f), file_size) \<in> set (skipped_files
            (process_file e repo_dir output_dir (max_size_mb * 1024 * 1024) root f s))" for s
      using step [of s] by simp
  qed
qed

theorem oversized_skipped_witness:
  "\<not> in_git_dir [''tmp'', ''tmpab12cd''] [''data''] ''big.txt''
   \<and> \<not> is_git_related ''big.txt'' (rel_path_of [''data''] ''big.txt'')
   \<and> \<not> in_github_dir [''tmp'', ''tmpab12cd''] [''data''] ''big.txt''
   \<and> \<not> has_binary_ext ''big.txt''
   \<and> 16777216 > (15::nat) * 1024 * 1024
   \<and> (case extract_run (example_env True []) [''tmp'', ''tmpab12cd''] [''out''] 15
          [([''data''], [file_of ''big.txt'' 16777216 ''x''])] empty_world of
        Inl err \<Rightarrow> False
      | Inr st \<Rightarrow> (''data/big.txt'', 16777216) \<in> set (skipped_files st))"
proof -
  let ?f = "file_of ''big.txt'' 16777216 ''x''"
  let ?wk = "[([''data''], [?f])]"
  have h1: "\<not> in_git_dir [''tmp'', ''tmpab12cd''] [''data''] (fname ?f)"
    by (simp add: file_of_def cond_defs)
  have h2: "\<not> is_git_related (fname ?f) (rel_path_of [''data''] (fname ?f))"
    by (simp add: file_of_def cond_defs)
  have h3: "\<not> in_github_dir [''tmp'', ''tmpab12cd''] [''data''] (fname ?f)"
    by (simp add: file_of_def cond_defs)
  have h4: "\<not> has_binary_ext (fname ?f)"
    by (simp add: file_of_def cond_defs)
  have h5: "fsize ?f = Some 16777216"
    by (simp add: file_of_def)
  have h6: "16777216 > (15::nat) * 1024 * 1024"
    by simp
  obtain st where run: "extract_run (example_env True []) [''tmp'', ''tmpab12cd''] [''out''] 15
      ?wk empty_world = Inr st"
    by (simp add: extract_run_def makedirs_def example_env_def)
  have mem: "([''data''], ?f) \<in> set (walk_files ?wk)"
    by (simp add: walk_files_def)
  have "(rel_path_of [''data''] (fname ?f), 16777216) \<in> set (skipped_files st)"
    using oversized_skipped [OF h1 h2 h3 h4 h5 h6] mem run by blast
  then have "(''data/big.txt'', 16777216) \<in> set (skipped_files st)"
    by (simp add: file_of_def rel_path_of_def sep_def)
  with h1 h2 h3 h4 h6 run show ?thesis
    by (simp add: file_of_def)
qed

section \<open>Files with an extension of the denylist\<close>

text \<open>
  C7 as it is stated does not hold: the rules for git-related names and for the
  \<open>.github\<close> directory come before the extension filter (and files below \<open>.git\<close> are
  not recorded at all). The file \<open>.github/logo.png\<close> has an extension of the denylist,
  but it is counted as a git-related file; the counter of the extension filter stays at 0.
\<close>

theorem github_png_counterexample:
  "(case extract_run (example_env True []) [''tmp'', ''tmpab12cd''] [''out''] 15
       [([''.github''], [file_of ''logo.png'' 5 ''hello''])] empty_world of
      Inl err \<Rightarrow> False
    | Inr s \<Rightarrow> has_binary_ext ''logo.png'' \<and> skipped_files s = [(''.github/logo.png'', 0)] \<and>
        skipped_by_extension s = 0 \<and> skipped_git_files s = 1)"
  by (simp add: run_defs cond_defs)

text \<open>
  C7, amended: a file that none of the earlier rules takes (no \<open>.git\<close> component in its
  path, no git-related name, no \<open>.github\<close> component) and whose lowercased extension is
  in the denylist is skipped as filtered by extension: the loop body appends the record of
  its relative path with the size 0, adds one to the counter of the extension filter and
  changes nothing else, whatever the size and the bytes of the file (they are not read);
  and the record is in the list of skipped files that the run ends with.
\<close>

theorem binary_extension_skipped:
  assumes "\<not> in_git_dir repo_dir root (fname f)"
    and "\<not> is_git_related (fname f) (rel_path_of root (fname f))"
    and "\<not> in_github_dir repo_dir root (fname f)"
    and "splitext_ext (lower (fname f)) \<in> binary_extensions"
  shows "process_file e repo_dir output_dir max_size_bytes root f s
           = s\<lparr>skipped_files := skipped_files s @ [(rel_path_of root (fname f), 0)],
               skipped_by_extension := skipped_by_extension s + 1\<rparr>
         \<and> (\<forall>wk w st max_size_mb. (root, f) \<in> set (walk_files wk)
               \<and> extract_run e repo_dir output_dir max_size_mb wk w = Inr st
               \<longrightarrow> (rel_path_of root (fname f), 0) \<in> set (skipped_files st))"
proof (intro conjI allI impI)
  show step: "process_file e repo_dir output_dir m root f s
           = s\<lparr>skipped_files := skipped_files s @ [(rel_path_of root (fname f), 0)],
               skipped_by_extension := skipped_by_extension s + 1\<rparr>" for s m
    using assms by (simp add: process_file_def has_binary_ext_def)
  fix wk w st max_size_mb
  assume a: "(root, f) \<in> set (walk_files wk)
               \<and> extract_run e repo_dir output_dir max_size_mb wk w = Inr st"
  show "(rel_path_of root (fname f), 0) \<in> set (skipped_files st)"
  proof (rule skipped_record_kept)
    show "(root, f) \<in> set (walk_files wk)" using a by simp
    show "extract_run e repo_dir output_dir max_size_mb wk w = Inr st" using a by simp
    show "(rel_path_of root (fname f), 0) \<in> set (skipped_files
            (process_file e repo_dir output_dir (max_size_mb * 1024 * 1024) root f s))" for s
      using step [of _ s] by simp
  qed
qed

theorem binary_extension_skipped_witness:
  "\<not> in_git_dir [''tmp'', ''tmpab12cd''] [''docs''] ''Notes.PDF''
   \<and> \<not> is_git_related ''Notes.PDF'' (rel_path_of [''docs''] ''Notes.PDF'')
   \<and> \<not> in_github_dir [''tmp'', ''tmpab12cd''] [''docs''] ''Notes.PDF''
   \<and> splitext_ext (lower ''Notes.PDF'') \<in> binary_extensions
   \<and> decodes_utf8 ''plain text''
   \<and> (case extract_run (example_env True []) [''tmp'', ''tmpab12cd''] [''out''] 15
          [([''docs''], [file_of ''Notes.PDF'' 10 ''plain text''])] empty_world of
        Inl err \<Rightarrow> False
      | Inr st \<Rightarrow> (''docs/Notes.PDF'', 0) \<in> set (skipped_files st)
                  \<and> processed_files st = [] \<and> files (out st) = Map.empty)"
proof -
  let ?f = "file_of ''Notes.PDF'' 10 ''plain text''"
  let ?wk = "[([''docs''], [?f])]"
  let ?e = "example_env True []"
  have h1: "\<not> in_git_dir [''tmp'', ''tmpab12cd''] [''docs''] (fname ?f)"
    by (simp add: file_of_def cond_defs)
  have h2: "\<not> is_git_related (fname ?f) (rel_path_of [''docs''] (fname ?f))"
    by (simp add: file_of_def cond_defs)
  have h3: "\<not> in_github_dir [''tmp'', ''tmpab12cd''] [''docs''] (fname ?f)"
    by (simp add: file_of_def cond_defs)
  have h4: "splitext_ext (lower (fname ?f)) \<in> binary_extensions"
    by (simp add: file_of_def cond_defs)
  have h5: "decodes_utf8 ''plain text''"
    by (simp add: decodes_utf8_def)
  let ?s0 = "init_xstate (empty_world\<lparr>dirs := dirs empty_world \<union> set (prefixes [''out''])\<rparr>)"
  have step: "process_file ?e [''tmp'', ''tmpab12cd''] [''out''] (15 * 1024 * 1024) [''docs''] ?f ?s0
      = ?s0\<lparr>skipped_files := skipped_files ?s0 @ [(rel_path_of [''docs''] (fname ?f), 0)],
            skipped_by_extension := skipped_by_extension ?s0 + 1\<rparr>"
    using binary_extension_skipped [OF h1 h2 h3 h4] by blast
  have run: "extract_run ?e [''tmp'', ''tmpab12cd''] [''out''] 15 ?wk empty_world
      = Inr (process_file ?e [''tmp'', ''tmpab12cd''] [''out''] (15 * 1024 * 1024) [''docs''] ?f ?s0)"
    by (simp add: extract_run_def makedirs_def example_env_def extract_loop_def)
  have rel: "rel_path_of [''docs''] (fname ?f) = ''docs/Notes.PDF''"
    by (simp add: file_of_def rel_path_of_def sep_def)
  have res: "extract_run ?e [''tmp'', ''tmpab12cd''] [''out''] 15 ?wk empty_world
      = Inr (?s0\<lparr>skipped_files := skipped_files ?s0 @ [(''docs/Notes.PDF'', 0)],
            skipped_by_extension := skipped_by_extension ?s0 + 1\<rparr>)"
    unfolding run step rel ..
  have c: "(case extract_run ?e [''tmp'', ''tmpab12cd''] [''out''] 15 ?wk empty_world of
        Inl err \<Rightarrow> False
      | Inr st \<Rightarrow> (''docs/Notes.PDF'', 0) \<in> set (skipped_files st)
                  \<and> processed_files st = [] \<and> files (out st) = Map.empty)"
    unfolding res by (simp add: init_xstate_def empty_world_def)
  show ?thesis
    using h1 h2 h3 h4 h5 c by (simp add: file_of_def)
qed

section \<open>Git-related file names\<close>

text \<open>
  C10 as it is stated does not hold for every file: the test for a \<open>.git\<close> component
  comes first, and a file that it takes is not recorded at all. The relative path
  \<open>.git/info/XCODEOWNERS\<close> ends with \<open>CODEOWNERS\<close>, and the run records nothing.
\<close>

theorem git_dir_codeowners_counterexample:
  "(case extract_run (example_env True []) [''tmp'', ''tmpab12cd''] [''out''] 15
       [([''.git'', ''info''], [file_of ''XCODEOWNERS'' 5 ''hello''])] empty_world of
      Inl err \<Rightarrow> False
    | Inr s \<Rightarrow> endswith (rel_path_of [''.git'', ''info''] ''XCODEOWNERS'') ''CODEOWNERS''
        \<and> skipped_files s = [] \<and> skipped_git_files s = 0)"
  by (simp add: run_defs cond_defs)

text \<open>
  C10, amended: the rule for git-related names matches by suffix of the relative path, not
  by the exact base name. Any file without a \<open>.git\<close> component in its path whose
  relative path ends with one of the six listed names is skipped as git-related: the loop
  body appends the record of its relative path with the size 0, adds one to the counter of
  git-related files and changes nothing else; and the record is in the list of skipped
  files that the run ends with. The witness is a file named \<open>XCODEOWNERS\<close>, which is
  not one of the six names.
\<close>

theorem git_related_suffix_skipped:
  assumes "\<not> in_git_dir repo_dir root (fname f)"
    and "\<exists>git_file \<in> set git_related_files. endswith (rel_path_of root (fname f)) git_file"
  shows "process_file e repo_dir output_dir max_size_bytes root f s
           = s\<lparr>skipped_files := skipped_files s @ [(rel_path_of root (fname f), 0)],
               skipped_git_files := skipped_git_files s + 1\<rparr>
         \<and> (\<forall>wk w st max_size_mb. (root, f) \<in> set (walk_files wk)
               \<and> extract_run e repo_dir output_dir max_size_mb wk w = Inr st
               \<longrightarrow> (rel_path_of root (fname f), 0) \<in> set (skipped_files st))"
proof (intro conjI allI impI)
  have rel: "is_git_related (fname f) (rel_path_of root (fname f))"
    using assms(2) by (simp add: is_git_related_def list_ex_iff)
  show step: "process_file e repo_dir output_dir m root f s
           = s\<lparr>skipped_files := skipped_files s @ [(rel_path_of root (fname f), 0)],
               skipped_git_files := skipped_git_files s + 1\<rparr>" for s m
    using assms(1) rel by (simp add: process_file_def)
  fix wk w st max_size_mb
  assume a: "(root, f) \<in> set (walk_files wk)
               \<and> extract_run e repo_dir output_dir max_size_mb wk w = Inr st"
  show "(rel_path_of root (fname f), 0) \<in> set (skipped_files st)"
  proof (rule skipped_record_kept)
    show "(root, f) \<in> set (walk_files wk)" using a by simp
    show "extract_run e repo_dir output_dir max_size_mb wk w = Inr st" using a by simp
    show "(rel_path_of root (fname f), 0) \<in> set (skipped_files
            (process_file e repo_dir output_dir (max_size_mb * 1024 * 1024) root f s))" for s
      using step [of _ s] by simp
  qed
qed

theorem git_related_suffix_skipped_witness:
  "''XCODEOWNERS'' \<notin> set git_related_files
   \<and> \<not> in_git_dir [''tmp'', ''tmpab12cd''] [''docs''] ''XCODEOWNERS''
   \<and> endswith (rel_path_of [''docs''] ''XCODEOWNERS'') ''CODEOWNERS''
   \<and> (case extract_run (example_env True []) [''tmp'', ''tmpab12cd''] [''out''] 15
          [([''docs''], [file_of ''XCODEOWNERS'' 10 ''plain text''])] empty_world of
        Inl err \<Rightarrow> False
      | Inr st \<Rightarrow> skipped_files st = [(''docs/XCODEOWNERS'', 0)] \<and> skipped_git_files st = 1
                  \<and> processed_files st = [])"
proof -
  let ?f = "file_of ''XCODEOWNERS'' 10 ''plain text''"
  let ?wk = "[([''docs''], [?f])]"
  let ?e = "example_env True []"
  have h0: "''XCODEOWNERS'' \<notin> set git_related_files"
    by (simp add: git_related_files_def)
  have h1: "\<not> in_git_dir [''tmp'', ''tmpab12cd''] [''docs''] (fname ?f)"
    by (simp add: file_of_def cond_defs)
  have h2: "endswith (rel_path_of [''docs''] (fname ?f)) ''CODEOWNERS''"
    by (simp add: file_of_def cond_defs)
  have h3: "\<exists>git_file \<in> set git_related_files. endswith (rel_path_of [''docs''] (fname ?f)) git_file"
    using h2 by (simp add: git_related_files_def)
  let ?s0 = "init_xstate (empty_world\<lparr>dirs := dirs empty_world \<union> set (prefixes [''out''])\<rparr>)"
  have step: "process_file ?e [''tmp'', ''tmpab12cd''] [''out''] (15 * 1024 * 1024) [''docs''] ?f ?s0
      = ?s0\<lparr>skipped_files := skipped_files ?s0 @ [(rel_path_of [''docs''] (fname ?f), 0)],
            skipped_git_files := skipped_git_files ?s0 + 1\<rparr>"
    using git_related_suffix_skipped [OF h1 h3] by blast
  have run: "extract_run ?e [''tmp'', ''tmpab12cd''] [''out''] 15 ?wk empty_world
      = Inr (process_file ?e [''tmp'', ''tmpab12cd''] [''out''] (15 * 1024 * 1024) [''docs''] ?f ?s0)"
    by (simp add: extract_run_def makedirs_def example_env_def extract_loop_def)
  have rel: "rel_path_of [''docs''] (fname ?f) = ''docs/XCODEOWNERS''"
    by (simp add: file_of_def rel_path_of_def sep_def)
  have res: "extract_run ?e [''tmp'', ''tmpab12cd''] [''out''] 15 ?wk empty_world
      = Inr (?s0\<lparr>skipped_files := skipped_files ?s0 @ [(''docs/XCODEOWNERS'', 0)],
            skipped_git_files := skipped_git_files ?s0 + 1\<rparr>)"
    unfolding run step rel ..
  have c: "(case extract_run ?e [''tmp'', ''tmpab12cd''] [''out''] 15 ?wk empty_world of
        Inl err \<Rightarrow> False
      | Inr st \<Rightarrow> skipped_files st = [(''docs/XCODEOWNERS'', 0)] \<and> skipped_git_files st = 1
                  \<and> processed_files st = [])"
    unfolding res by (simp add: init_xstate_def empty_world_def)
  show ?thesis
    using h0 h1 h2 c by (simp add: file_of_def)
qed

section \<open>Processed files\<close>

text \<open>The loop body, split by whether the file is processed: only then does the list of
  processed files change.\<close>

lemmas progress_defs = is_processed_def reads_clock_def opens_output_def reaches_copy_def

lemma process_file_cases:
  "process_file e repo_dir output_dir m root f s =
     (if is_processed e repo_dir output_dir m root f then
        s\<lparr>processed_files := processed_files s @ [rel_path_of root (fname f)],
          out := (out s)\<lparr>tick := Suc (tick (out s)),
                   files := (files (out s))(output_dir @ [safe_name_of (rel_path_of root (fname f))] \<mapsto>
                      annotated (rel_path_of root (fname f)) (clock e (tick (out s))) (the (fbytes f)))\<rparr>\<rparr>
      else (process_file e repo_dir output_dir m root f s)\<lparr>processed_files := processed_files s\<rparr>)"
  by (auto simp: process_file_def progress_defs now_def Let_def split: option.splits)

text \<open>
  C5 as it is stated does not hold to the byte: the \<open>write\<close> of the second header line
  ends with two newlines, so an empty line stands between the header and the text. For the
  file \<open>a/b/c.py\<close> with the bytes \<open>print(1)\<close> the output file is not the two header
  lines followed at once by \<open>print(1)\<close>.
\<close>

theorem header_blank_line_counterexample:
  "(case extract_code_files (example_env True []) [''tmp'', ''tmpab12cd''] [''out''] 15
          [([''a'', ''b''], [file_of ''c.py'' 8 ''print(1)''])] empty_world of
      Inl err \<Rightarrow> False
    | Inr ((processed, skipped, git_count), w) \<Rightarrow>
        processed = [''a/b/c.py'']
        \<and> files w [''out'', ''a_b_c.py''] \<noteq>
            Some ((hdr_path_label @ ''a/b/c.py'' @ newline)
                  @ (hdr_time_label @ ''2024-01-01 00:00:00'' @ newline)
                  @ ''print(1)''))"
  by (simp add: extract_code_files_def run_defs cond_defs decodes_utf8_def now_def Let_def
      safe_name_of_def replace_char_def backslash_def digit_char_def annotated_def newline_def)

text \<open>
  C5, amended: when the loop body processes a file \<open>c.py\<close> of the directory \<open>a/b\<close>
  whose bytes are \<open>print(1)\<close> (it appends to the list of processed files), it writes the
  file \<open>a_b_c.py\<close> of the output directory. Its content is the line with the relative
  path \<open>a/b/c.py\<close>, the line with the time of extraction, an empty line, and then
  \<open>print(1)\<close> unchanged; and \<open>a/b/c.py\<close> is appended to the list of processed files.
  Nothing else changes but the clock.
\<close>

theorem flattened_copy:
  assumes "fname f = ''c.py''"
    and "fbytes f = Some ''print(1)''"
    and "processed_files (process_file e repo_dir output_dir m [''a'', ''b''] f s) \<noteq> processed_files s"
  shows "process_file e repo_dir output_dir m [''a'', ''b''] f s
           = s\<lparr>processed_files := processed_files s @ [''a/b/c.py''],
               out := (out s)\<lparr>tick := Suc (tick (out s)),
                        files := (files (out s))(output_dir @ [''a_b_c.py''] \<mapsto>
                          (hdr_path_label @ ''a/b/c.py'' @ newline) @
                          (hdr_time_label @ clock e (tick (out s)) @ newline @ newline) @
                          ''print(1)'')\<rparr>\<rparr>"
proof -
  have rel: "rel_path_of [''a'', ''b''] (fname f) = ''a/b/c.py''"
    by (simp add: assms(1) rel_path_of_def sep_def)
  have safe: "safe_name_of ''a/b/c.py'' = ''a_b_c.py''"
    by (simp add: safe_name_of_def replace_char_def sep_def backslash_def)
  have p: "is_processed e repo_dir output_dir m [''a'', ''b''] f"
  proof (rule ccontr)
    assume "\<not> is_processed e repo_dir output_dir m [''a'', ''b''] f"
    then have "processed_files (process_file e repo_dir output_dir m [''a'', ''b''] f s) = processed_files s"
      by (subst process_file_cases) simp
    with assms(3) show False by simp
  qed
  show ?thesis
    by (subst process_file_cases) (simp add: p rel safe assms(2) annotated_def)
qed

theorem flattened_copy_witness:
  "(case extract_code_files (example_env True []) [''tmp'', ''tmpab12cd''] [''out''] 15
          [([''a'', ''b''], [file_of ''c.py'' 8 ''print(1)''])] empty_world of
      Inl err \<Rightarrow> False
    | Inr ((processed, skipped, git_count), w) \<Rightarrow>
        processed = [''a/b/c.py''] \<and> skipped = []
        \<and> files w [''out'', ''a_b_c.py''] =
            Some (hdr_path_label @ ''a/b/c.py'' @ newline
                  @ hdr_time_label @ ''2024-01-01 00:00:00'' @ newline @ newline
                  @ ''print(1)'')
        \<and> dom (files w) = {[''out'', ''a_b_c.py'']})"
proof -
  let ?f = "file_of ''c.py'' 8 ''print(1)''"
  let ?e = "example_env True []"
  let ?s0 = "init_xstate (empty_world\<lparr>dirs := dirs empty_world \<union> set (prefixes [''out''])\<rparr>)"
  have h1: "fname ?f = ''c.py''" by (simp add: file_of_def)
  have h2: "fbytes ?f = Some ''print(1)''" by (simp add: file_of_def)
  have h3: "processed_files (process_file ?e [''tmp'', ''tmpab12cd''] [''out''] (15 * 1024 * 1024)
               [''a'', ''b''] ?f ?s0) \<noteq> processed_files ?s0"
    by (simp add: run_defs cond_defs decodes_utf8_def now_def Let_def)
  note step = flattened_copy [OF h1 h2 h3]
  have run: "extract_run ?e [''tmp'', ''tmpab12cd''] [''out''] 15 [([''a'', ''b''], [?f])] empty_world
      = Inr (process_file ?e [''tmp'', ''tmpab12cd''] [''out''] (15 * 1024 * 1024) [''a'', ''b''] ?f ?s0)"
    by (simp add: extract_run_def makedirs_def example_env_def extract_loop_def)
  show ?thesis
    unfolding extract_code_files_def run step
    by (simp add: init_xstate_def empty_world_def example_env_def digit_char_def)
qed

section \<open>Colliding output names\<close>

text \<open>What a pass of the loop body leaves in the list of processed files, on the clock and
  in the output directory.\<close>

lemma processed_files_step:
  "processed_files (process_file e repo_dir output_dir m root f s)
     = processed_files s @ (if is_processed e repo_dir output_dir m root f
                            then [rel_path_of root (fname f)] else [])"
  by (subst process_file_cases) simp

lemma processed_files_fold:
  "processed_files (foldl (\<lambda>s (d, g). process_file e repo_dir output_dir m d g s) s xs)
     = processed_files s
       @ map (\<lambda>(d, g). rel_path_of d (fname g))
           (filter (\<lambda>(d, g). is_processed e repo_dir output_dir m d g) xs)"
proof (induction xs arbitrary: s)
  case Nil
  show ?case by simp
next
  case (Cons x xs)
  obtain d g where x: "x = (d, g)" by (cases x)
  show ?case by (simp add: x Cons.IH processed_files_step)
qed

lemma tick_step:
  "tick (out (process_file e repo_dir output_dir m root f s))
     = tick (out s) + (if reads_clock e repo_dir output_dir m root f then 1 else 0)"
  by (auto simp: process_file_def reads_clock_def opens_output_def reaches_copy_def now_def
      Let_def split: option.splits)

lemma tick_fold:
  "tick (out (foldl (\<lambda>s (d, g). process_file e repo_dir output_dir m d g s) s xs))
     = tick (out s)
       + length (filter (\<lambda>(d, g). reads_clock e repo_dir output_dir m d g) xs)"
proof (induction xs arbitrary: s)
  case Nil
  show ?case by simp
next
  case (Cons x xs)
  obtain d g where x: "x = (d, g)" by (cases x)
  show ?case by (simp add: x Cons.IH tick_step)
qed

lemma out_files_processed:
  assumes "is_processed e repo_dir output_dir m root f" and "fbytes f = Some content"
  shows "files (out (process_file e repo_dir output_dir m root f s))
           (output_dir @ [safe_name_of (rel_path_of root (fname f))])
         = Some (annotated (rel_path_of root (fname f)) (clock e (tick (out s))) content)"
  using assms by (subst process_file_cases) simp

lemma out_files_kept:
  assumes "opens_output e repo_dir output_dir m root f
             \<longrightarrow> output_dir @ [safe_name_of (rel_path_of root (fname f))] \<noteq> p"
  shows "files (out (process_file e repo_dir output_dir m root f s)) p = files (out s) p"
  using assms
  by (auto simp: process_file_def opens_output_def reaches_copy_def now_def Let_def
      split: option.splits)

lemma out_files_untouched:
  assumes "\<forall>(d, g) \<in> set xs. opens_output e repo_dir output_dir m d g
              \<longrightarrow> output_dir @ [safe_name_of (rel_path_of d (fname g))] \<noteq> p"
  shows "files (out (foldl (\<lambda>s (d, g). process_file e repo_dir output_dir m d g s) s xs)) p
           = files (out s) p"
  using assms
proof (induction xs arbitrary: s)
  case Nil
  show ?case by simp
next
  case (Cons x xs)
  obtain d g where x: "x = (d, g)" by (cases x)
  have "files (out (process_file e repo_dir output_dir m d g s)) p = files (out s) p"
    using Cons.prems by (intro out_files_kept) (simp add: x)
  moreover have "files (out (foldl (\<lambda>s (d, g). process_file e repo_dir output_dir m d g s)
       (process_file e repo_dir output_dir m d g s) xs)) p
       = files (out (process_file e repo_dir output_dir m d g s)) p"
    using Cons.prems by (intro Cons.IH) simp
  ultimately show ?case by (simp add: x)
qed

text \<open>
  C6 as it is stated does not hold for every two colliding paths: a file that a filter
  takes is not written. The paths \<open>x_y.png\<close> and \<open>x/y.png\<close> are distinct and flatten
  to the same name; both files are skipped for their extension, the list of processed
  files is empty, and there is no output file.
\<close>

theorem skipped_collision_counterexample:
  "rel_path_of [] ''x_y.png'' \<noteq> rel_path_of [''x''] ''y.png''
   \<and> safe_name_of (rel_path_of [] ''x_y.png'') = safe_name_of (rel_path_of [''x''] ''y.png'')
   \<and> (case extract_run (example_env True []) [''tmp'', ''tmpab12cd''] [''out''] 15
          [([], [file_of ''x_y.png'' 5 ''first'']), ([''x''], [file_of ''y.png'' 6 ''second''])]
          empty_world of
        Inl err \<Rightarrow> False
      | Inr st \<Rightarrow> processed_files st = [] \<and> files (out st) = Map.empty)"
  by (simp add: run_defs cond_defs Let_def safe_name_of_def replace_char_def backslash_def)

text \<open>
  C6, amended: let two files with distinct relative paths flatten to the same output name,
  both be processed, the second later in the walk than the first, and no file after the
  second open an output file of that name. Then both relative paths are in the list of
  processed files, and the run ends with one file under that name in the output directory,
  the copy of the second file: the header line with the relative path of the second file,
  the header line with the time that the clock showed when the second file was copied (one
  reading for the start of each earlier copy), an empty line, and the bytes of the second
  file. The witness is the tree with \<open>x_y.py\<close> and \<open>x/y.py\<close>: the walk lists the root
  first, the output directory ends with the single file \<open>x_y.py\<close>, and it is the copy of
  \<open>x/y.py\<close>.
\<close>

theorem collision_overwrites:
  assumes run: "extract_run e repo_dir output_dir max_size_mb wk w = Inr st"
    and order: "walk_files wk = pre @ (root1, f1) # mid @ (root2, f2) # post"
    and p1: "is_processed e repo_dir output_dir (max_size_mb * 1024 * 1024) root1 f1"
    and p2: "is_processed e repo_dir output_dir (max_size_mb * 1024 * 1024) root2 f2"
    and content2: "fbytes f2 = Some content2"
    and distinct_paths: "rel_path_of root1 (fname f1) \<noteq> rel_path_of root2 (fname f2)"
    and same_name: "safe_name_of (rel_path_of root1 (fname f1)) = safe_name_of (rel_path_of root2 (fname f2))"
    and last_writer: "\<forall>(d, g) \<in> set post.
            opens_output e repo_dir output_dir (max_size_mb * 1024 * 1024) d g
            \<longrightarrow> safe_name_of (rel_path_of d (fname g)) \<noteq> safe_name_of (rel_path_of root2 (fname f2))"
  shows "rel_path_of root1 (fname f1) \<in> set (processed_files st)
         \<and> rel_path_of root2 (fname f2) \<in> set (processed_files st)
         \<and> files (out st) (output_dir @ [safe_name_of (rel_path_of root1 (fname f1))])
             = Some ((hdr_path_label @ rel_path_of root2 (fname f2) @ newline)
                     @ (hdr_time_label
                        @ clock e (tick w + length (filter
                             (\<lambda>(d, g). reads_clock e repo_dir output_dir
                                          (max_size_mb * 1024 * 1024) d g)
                             (pre @ (root1, f1) # mid)))
                        @ newline @ newline)
                     @ content2)"
proof -
  define m where "m = max_size_mb * 1024 * 1024"
  let ?step = "\<lambda>s (d, g). process_file e repo_dir output_dir m d g s"
  let ?p = "output_dir @ [safe_name_of (rel_path_of root2 (fname f2))]"
  note p1' = p1 [folded m_def] and p2' = p2 [folded m_def]
    and last_writer' = last_writer [folded m_def]
  from run obtain w1 where w1: "makedirs e output_dir w = Inr w1"
    and st: "st = foldl ?step (init_xstate w1) (walk_files wk)"
    by (auto simp: extract_run_def extract_loop_flat m_def split: sum.splits)
  have tick_w1: "tick w1 = tick w"
    using w1 by (auto simp: makedirs_def split: if_splits)
  have proc: "processed_files st = map (\<lambda>(d, g). rel_path_of d (fname g))
           (filter (\<lambda>(d, g). is_processed e repo_dir output_dir m d g) (walk_files wk))"
    by (simp add: st processed_files_fold init_xstate_def)
  have in1: "rel_path_of root1 (fname f1) \<in> set (processed_files st)"
    unfolding proc order using p1' by force
  have in2: "rel_path_of root2 (fname f2) \<in> set (processed_files st)"
    unfolding proc order using p2' by force
  define s1 where "s1 = foldl ?step (init_xstate w1) (pre @ (root1, f1) # mid)"
  have split: "st = foldl ?step (process_file e repo_dir output_dir m root2 f2 s1) post"
    by (simp add: st order s1_def)
  have tick_s1: "tick (out s1) = tick w + length (filter
        (\<lambda>(d, g). reads_clock e repo_dir output_dir m d g) (pre @ (root1, f1) # mid))"
    unfolding s1_def tick_fold by (simp add: init_xstate_def tick_w1)
  have "files (out st) ?p = files (out (process_file e repo_dir output_dir m root2 f2 s1)) ?p"
    unfolding split using last_writer' by (intro out_files_untouched) auto
  also have "\<dots> = Some (annotated (rel_path_of root2 (fname f2)) (clock e (tick (out s1))) content2)"
    using p2' content2 by (rule out_files_processed)
  finally have written: "files (out st) (output_dir @ [safe_name_of (rel_path_of root1 (fname f1))])
      = Some ((hdr_path_label @ rel_path_of root2 (fname f2) @ newline)
              @ (hdr_time_label
                 @ clock e (tick w + length (filter
                     (\<lambda>(d, g). reads_clock e repo_dir output_dir m d g)
                     (pre @ (root1, f1) # mid)))
                 @ newline @ newline)
              @ content2)"
    unfolding same_name tick_s1 annotated_def .
  from in1 in2 written show ?thesis
    unfolding m_def by (intro conjI)
qed

theorem collision_overwrites_witness:
  "is_processed (example_env True []) [''tmp'', ''tmpab12cd''] [''out''] (15 * 1024 * 1024)
      [] (file_of ''x_y.py'' 5 ''first'')
   \<and> is_processed (example_env True []) [''tmp'', ''tmpab12cd''] [''out''] (15 * 1024 * 1024)
      [''x''] (file_of ''y.py'' 6 ''second'')
   \<and> rel_path_of [] ''x_y.py'' \<noteq> rel_path_of [''x''] ''y.py''
   \<and> safe_name_of (rel_path_of [] ''x_y.py'') = safe_name_of (rel_path_of [''x''] ''y.py'')
   \<and> (case extract_run (example_env True []) [''tmp'', ''tmpab12cd''] [''out''] 15
          [([], [file_of ''x_y.py'' 5 ''first'']), ([''x''], [file_of ''y.py'' 6 ''second''])]
          empty_world of
        Inl err \<Rightarrow> False
      | Inr st \<Rightarrow>
          ''x_y.py'' \<in> set (processed_files st) \<and> ''x/y.py'' \<in> set (processed_files st)
          \<and> files (out st) [''out'', ''x_y.py'']
              = Some ((hdr_path_label @ ''x/y.py'' @ newline)
                      @ (hdr_time_label @ ''2024-01-01 00:00:01'' @ newline @ newline)
                      @ ''second'')
          \<and> dom (files (out st)) = {[''out'', ''x_y.py'']})"
proof -
  let ?e = "example_env True []"
  let ?f1 = "file_of ''x_y.py'' 5 ''first''"
  let ?f2 = "file_of ''y.py'' 6 ''second''"
  let ?wk = "[([], [?f1]), ([''x''], [?f2])]"
  have p1: "is_processed ?e [''tmp'', ''tmpab12cd''] [''out''] (15 * 1024 * 1024) [] ?f1"
    by (simp add: progress_defs file_of_def example_env_def cond_defs decodes_utf8_def)
  have p2: "is_processed ?e [''tmp'', ''tmpab12cd''] [''out''] (15 * 1024 * 1024) [''x''] ?f2"
    by (simp add: progress_defs file_of_def example_env_def cond_defs decodes_utf8_def)
  have c1: "reads_clock ?e [''tmp'', ''tmpab12cd''] [''out''] (15 * 1024 * 1024) [] ?f1"
    using p1 by (simp add: is_processed_def)
  have r1: "rel_path_of [] (fname ?f1) = ''x_y.py''"
    by (simp add: file_of_def rel_path_of_def)
  have r2: "rel_path_of [''x''] (fname ?f2) = ''x/y.py''"
    by (simp add: file_of_def rel_path_of_def sep_def)
  have sn: "safe_name_of ''x/y.py'' = ''x_y.py''" "safe_name_of ''x_y.py'' = ''x_y.py''"
    by (simp_all add: safe_name_of_def replace_char_def sep_def backslash_def)
  have order: "walk_files ?wk = [] @ ([], ?f1) # [] @ ([''x''], ?f2) # []"
    by (simp add: walk_files_def)
  have res: "extract_run ?e [''tmp'', ''tmpab12cd''] [''out''] 15 ?wk empty_world
      = Inr (extract_loop ?e [''tmp'', ''tmpab12cd''] [''out''] (15 * 1024 * 1024) ?wk
          (init_xstate (empty_world\<lparr>dirs := dirs empty_world \<union> set (prefixes [''out''])\<rparr>)))"
    (is "_ = Inr ?st")
    by (simp add: extract_run_def makedirs_def example_env_def)
  have c2: "fbytes ?f2 = Some ''second''"
    by (simp add: file_of_def)
  have dp: "rel_path_of [] (fname ?f1) \<noteq> rel_path_of [''x''] (fname ?f2)"
    by (simp add: r1 r2)
  have same: "safe_name_of (rel_path_of [] (fname ?f1)) = safe_name_of (rel_path_of [''x''] (fname ?f2))"
    by (simp add: r1 r2 sn)
  have lw: "\<forall>(d, g) \<in> set []. opens_output ?e [''tmp'', ''tmpab12cd''] [''out''] (15 * 1024 * 1024) d g
      \<longrightarrow> safe_name_of (rel_path_of d (fname g)) \<noteq> safe_name_of (rel_path_of [''x''] (fname ?f2))"
    by simp
  have readings: "tick empty_world + length (filter
        (\<lambda>(d, g). reads_clock ?e [''tmp'', ''tmpab12cd''] [''out''] (15 * 1024 * 1024) d g)
        ([] @ ([], ?f1) # [])) = 1"
    using c1 by (simp add: empty_world_def)
  have clk: "clock ?e 1 = ''2024-01-01 00:00:01''"
    by (simp add: example_env_def digit_char_def)
  note th = collision_overwrites [OF res order p1 p2 c2 dp same lw]
  have mem: "''x_y.py'' \<in> set (processed_files ?st) \<and> ''x/y.py'' \<in> set (processed_files ?st)"
    using th unfolding r1 r2 by blast
  have content: "files (out ?st) [''out'', ''x_y.py'']
      = Some ((hdr_path_label @ ''x/y.py'' @ newline)
              @ (hdr_time_label @ ''2024-01-01 00:00:01'' @ newline @ newline)
              @ ''second'')"
    using th unfolding r1 r2 sn readings clk by simp
  have created: "dom (files (out ?st)) = {[''out'', ''x_y.py'']}"
    by (simp add: run_defs cond_defs decodes_utf8_def now_def Let_def safe_name_of_def
        replace_char_def backslash_def)
  have "rel_path_of [] ''x_y.py'' \<noteq> rel_path_of [''x''] ''y.py''"
    by (simp add: rel_path_of_def sep_def)
  moreover have "safe_name_of (rel_path_of [] ''x_y.py'') = safe_name_of (rel_path_of [''x''] ''y.py'')"
    by (simp add: rel_path_of_def sep_def sn)
  ultimately show ?thesis
    unfolding res using p1 p2 mem content created by simp
qed

section \<open>The recorded paths\<close>

text \<open>
  The paths that a state records, processed and skipped, as a multiset: one pass of the
  loop body adds the relative path of the file, unless the path of the file has a
  \<open>.git\<close> component or the handler of the outer \<open>try\<close> is reached.
\<close>

lemma recorded_step:
  "mset (processed_files (process_file e repo_dir output_dir m root f s)
           @ map fst (skipped_files (process_file e repo_dir output_dir m root f s)))
     = mset (processed_files s @ map fst (skipped_files s))
       + (if in_git_dir repo_dir root (fname f) \<or> copy_fails e repo_dir output_dir m root f
          then {#} else {#rel_path_of root (fname f)#})"
  by (auto simp: process_file_def copy_fails_def progress_defs now_def Let_def
      split: option.splits)

lemma recorded_fold:
  "mset (processed_files (foldl (\<lambda>s (d, g). process_file e repo_dir output_dir m d g s) s xs)
           @ map fst (skipped_files (foldl (\<lambda>s (d, g). process_file e repo_dir output_dir m d g s) s xs)))
     = mset (processed_files s @ map fst (skipped_files s))
       + mset (map (\<lambda>(d, g). rel_path_of d (fname g))
           (filter (\<lambda>(d, g). \<not> (in_git_dir repo_dir d (fname g) \<or> copy_fails e repo_dir output_dir m d g)) xs))"
proof (induction xs arbitrary: s)
  case Nil
  show ?case by simp
next
  case (Cons x xs)
  obtain d g where x: "x = (d, g)" by (cases x)
  show ?case
    unfolding x foldl_Cons prod.case Cons.IH recorded_step by simp
qed

lemma not_copy_fails:
  assumes "in_git_dir repo_dir root (fname f) \<or> has_binary_ext (fname f)
           \<or> is_processed e repo_dir output_dir m root f"
  shows "\<not> copy_fails e repo_dir output_dir m root f"
  using assms by (auto simp: copy_fails_def reaches_copy_def)

text \<open>
  Splitting a joined path gives its components back, so in a well-formed walk no two files
  have the same relative path.
\<close>

lemma split_on_no_sep:
  "c \<notin> set p \<Longrightarrow> split_on c (p @ c # rest) = p # split_on c rest"
  by (induction p) auto

lemma split_on_plain:
  "c \<notin> set p \<Longrightarrow> split_on c p = [p]"
  by (induction p) auto

lemma split_join:
  assumes "ps \<noteq> []" and "\<forall>p \<in> set ps. c \<notin> set p"
  shows "split_on c (join_with c ps) = ps"
  using assms
proof (induction c ps rule: join_with.induct)
  case (1 c)
  then show ?case by simp
next
  case (2 c p)
  then show ?case by (simp add: split_on_plain)
next
  case (3 c p q ps)
  then show ?case by (simp add: split_on_no_sep)
qed

lemma rel_path_of_inj:
  assumes "\<forall>p \<in> set (d @ [n]). sep \<notin> set p" and "\<forall>p \<in> set (d' @ [n']). sep \<notin> set p"
    and "rel_path_of d n = rel_path_of d' n'"
  shows "d = d' \<and> n = n'"
proof -
  have one: "split_on sep (join_with sep (d @ [n])) = d @ [n]"
    by (rule split_join) (use assms(1) in simp_all)
  have two: "split_on sep (join_with sep (d' @ [n'])) = d' @ [n']"
    by (rule split_join) (use assms(2) in simp_all)
  have same: "join_with sep (d @ [n]) = join_with sep (d' @ [n'])"
    using assms(3) unfolding rel_path_of_def .
  have "d @ [n] = split_on sep (join_with sep (d @ [n]))"
    by (rule one [symmetric])
  also have "\<dots> = split_on sep (join_with sep (d' @ [n']))"
    by (rule arg_cong [OF same])
  also have "\<dots> = d' @ [n']"
    by (rule two)
  finally show ?thesis by simp
qed

lemma well_formed_walk_Cons:
  assumes "well_formed_walk ((root, fs) # wk)"
  shows "well_formed_walk wk" and "root \<notin> fst ` set wk" and "distinct (map fname fs)"
    and "\<forall>name \<in> set root \<union> fname ` set fs. sep \<notin> set name"
  using assms by (auto simp: well_formed_walk_def)

lemma walk_files_names:
  assumes "well_formed_walk wk" and "(d, g) \<in> set (walk_files wk)"
  shows "d \<in> fst ` set wk \<and> (\<forall>p \<in> set (d @ [fname g]). sep \<notin> set p)"
proof -
  from assms(2) obtain fs where in_wk: "(d, fs) \<in> set wk" and g: "g \<in> set fs"
    by (auto simp: walk_files_def)
  from assms(1) in_wk have "\<forall>name \<in> set d \<union> fname ` set fs. sep \<notin> set name"
    unfolding well_formed_walk_def by blast
  with g have "\<forall>p \<in> set (d @ [fname g]). sep \<notin> set p"
    by auto
  moreover from in_wk have "d \<in> fst ` set wk"
    by force
  ultimately show ?thesis by simp
qed

lemma well_formed_distinct_paths:
  assumes "well_formed_walk wk"
  shows "distinct (map (\<lambda>(d, g). rel_path_of d (fname g)) (walk_files wk))"
  using assms
proof (induction wk)
  case Nil
  show ?case by (simp add: walk_files_def)
next
  case (Cons a wk)
  obtain root fs where a: "a = (root, fs)" by (cases a)
  note wf = well_formed_walk_Cons [OF Cons.prems [unfolded a]]
  let ?rel = "\<lambda>(d, g). rel_path_of d (fname g)"
  have files: "walk_files (a # wk) = map (Pair root) fs @ walk_files wk"
    by (simp add: walk_files_def a)
  have legal_here: "\<forall>p \<in> set (root @ [fname g]). sep \<notin> set p" if "g \<in> set fs" for g
    using wf(4) that by auto
  have "inj_on (\<lambda>n. rel_path_of root n) (fname ` set fs)"
  proof (rule inj_onI)
    fix n n' assume "n \<in> fname ` set fs" "n' \<in> fname ` set fs"
      and "rel_path_of root n = rel_path_of root n'"
    then show "n = n'"
      using rel_path_of_inj [of root n root n'] wf(4) by auto
  qed
  then have "inj_on (rel_path_of root) (set (map fname fs))"
    by simp
  with wf(3) have "distinct (map (rel_path_of root) (map fname fs))"
    unfolding distinct_map [of "rel_path_of root" "map fname fs"] by (rule conjI)
  then have here: "distinct (map ?rel (map (Pair root) fs))"
    by (simp add: comp_def)
  have rest: "distinct (map ?rel (walk_files wk))"
    using wf(1) by (rule Cons.IH)
  have apart: "set (map ?rel (map (Pair root) fs)) \<inter> set (map ?rel (walk_files wk)) = {}"
  proof (rule ccontr)
    assume "set (map ?rel (map (Pair root) fs)) \<inter> set (map ?rel (walk_files wk)) \<noteq> {}"
    then obtain r where r1: "r \<in> set (map ?rel (map (Pair root) fs))"
      and r2: "r \<in> set (map ?rel (walk_files wk))"
      by blast
    from r1 obtain g where g: "g \<in> set fs" and rg: "r = rel_path_of root (fname g)"
      by auto
    from r2 obtain d' g' where dg': "(d', g') \<in> set (walk_files wk)"
      and rg': "r = rel_path_of d' (fname g')"
      by auto
    from rg rg' have eq: "rel_path_of root (fname g) = rel_path_of d' (fname g')"
      by simp
    from walk_files_names [OF wf(1) dg'] have d': "d' \<in> fst ` set wk"
      and legal': "\<forall>p \<in> set (d' @ [fname g']). sep \<notin> set p"
      by simp_all
    from rel_path_of_inj [OF legal_here [OF g] legal' eq] have "root = d'" by simp
    with d' wf(2) show False by simp
  qed
  show ?case
    unfolding files map_append distinct_append using here rest apart by simp
qed

text \<open>
  C4 as it is stated does not hold. The test for \<open>.git\<close> looks at every component of
  the path of the file, its own name included, so a regular file named \<open>.git\<close> is
  dropped although no directory \<open>.git\<close> is above it; a file that cannot be read is only
  logged; and so is a file whose name is not valid UTF-8 (here \<open>caf\<close>, the byte E9 and
  \<open>.py\<close>): the first header line cannot be encoded, and the output file stays empty.
  With these three files in the root of the workspace both returned lists are empty.
\<close>

theorem unrecorded_files_counterexample:
  "(case extract_code_files (example_env True []) [''tmp'', ''tmpab12cd''] [''out''] 15
          [([], [file_of ''.git'' 20 ''gitdir: elsewhere'',
                 \<lparr>fname = ''notes.txt'', fsize = Some 5, fbytes = None\<rparr>,
                 file_of (''caf'' @ [CHR 0xE9] @ ''.py'') 8 ''print(1)''])] empty_world of
      Inl err \<Rightarrow> False
    | Inr ((processed, skipped, git_count), w) \<Rightarrow>
        processed = [] \<and> skipped = []
        \<and> files w [''out'', ''caf'' @ [CHR 0xE9] @ ''.py''] = Some [])"
  by (simp add: extract_code_files_def run_defs cond_defs decodes_utf8_def cont_byte_def
      Let_def safe_name_of_def replace_char_def backslash_def)

text \<open>
  C4, amended: let the walk be well formed (as the walk of a directory tree is), and let
  no file reach the handler of the outer \<open>try\<close>: every file that passes the filters and
  the size check can be read, and when its bytes are valid UTF-8, its relative path is valid
  UTF-8 too, its output file can be opened, written and closed, and \<open>os.chmod\<close> succeeds
  on it. Then the paths
  of the processed list and the paths of the skipped list are disjoint, neither list has a
  path twice, and together they are exactly the relative paths of the files of the walk
  whose path (the path of \<open>repo_dir\<close>, the directories below it and the name of the
  file) has no component equal to \<open>.git\<close>.
\<close>

theorem recorded_paths_partition:
  assumes run: "extract_code_files e repo_dir output_dir max_size_mb wk w
                  = Inr ((processed, skipped, git_count), w')"
    and wf: "well_formed_walk wk"
    and io: "\<forall>(d, g) \<in> set (walk_files wk).
               \<not> copy_fails e repo_dir output_dir (max_size_mb * 1024 * 1024) d g"
  shows "set processed \<inter> fst ` set skipped = {}
         \<and> distinct processed \<and> distinct (map fst skipped)
         \<and> set processed \<union> fst ` set skipped
             = (\<lambda>(d, g). rel_path_of d (fname g))
                 ` set (filter (\<lambda>(d, g). \<not> in_git_dir repo_dir d (fname g)) (walk_files wk))"
proof -
  let ?m = "max_size_mb * 1024 * 1024"
  let ?step = "\<lambda>s (d, g). process_file e repo_dir output_dir ?m d g s"
  let ?rel = "\<lambda>(d, g). rel_path_of d (fname g)"
  let ?kept = "filter (\<lambda>(d, g). \<not> in_git_dir repo_dir d (fname g)) (walk_files wk)"
  from run obtain w1 where
    st: "processed = processed_files (foldl ?step (init_xstate w1) (walk_files wk))"
        "skipped = skipped_files (foldl ?step (init_xstate w1) (walk_files wk))"
    by (auto simp: extract_code_files_def extract_run_def extract_loop_flat split: sum.splits)
  have same_filter: "filter (\<lambda>(d, g). \<not> (in_git_dir repo_dir d (fname g)
            \<or> copy_fails e repo_dir output_dir ?m d g)) (walk_files wk) = ?kept"
    using io by (intro filter_cong) auto
  have m: "mset (processed @ map fst skipped) = mset (map ?rel ?kept)"
    unfolding st recorded_fold same_filter by (simp add: init_xstate_def)
  have "distinct (map ?rel (walk_files wk))"
    using wf by (rule well_formed_distinct_paths)
  then have "distinct (map ?rel ?kept)"
    by (rule distinct_map_filter)
  then have d: "distinct (processed @ map fst skipped)"
    using m by (metis mset_eq_imp_distinct_iff)
  have "set (processed @ map fst skipped) = set (map ?rel ?kept)"
    using m by (rule mset_eq_setD)
  then have u: "set processed \<union> fst ` set skipped
             = (\<lambda>(d, g). rel_path_of d (fname g))
                 ` set (filter (\<lambda>(d, g). \<not> in_git_dir repo_dir d (fname g)) (walk_files wk))"
    by simp
  from d u show ?thesis by auto
qed

theorem recorded_paths_partition_witness:
  "well_formed_walk [([], [file_of ''a.py'' 8 ''print(1)'', file_of ''b.png'' 3 ''xyz'']),
                     ([''.git''], [file_of ''config'' 4 ''core''])]
   \<and> (case extract_code_files (example_env True []) [''tmp'', ''tmpab12cd''] [''out''] 15
          [([], [file_of ''a.py'' 8 ''print(1)'', file_of ''b.png'' 3 ''xyz'']),
           ([''.git''], [file_of ''config'' 4 ''core''])] empty_world of
        Inl err \<Rightarrow> False
      | Inr ((processed, skipped, git_count), w) \<Rightarrow>
          set processed \<inter> fst ` set skipped = {}
          \<and> distinct processed \<and> distinct (map fst skipped)
          \<and> set processed \<union> fst ` set skipped = {''a.py'', ''b.png''})"
proof -
  let ?e = "example_env True []"
  let ?wk = "[([], [file_of ''a.py'' 8 ''print(1)'', file_of ''b.png'' 3 ''xyz'']),
              ([''.git''], [file_of ''config'' 4 ''core''])]"
  have wf: "well_formed_walk ?wk"
    by (simp add: well_formed_walk_def file_of_def sep_def)
  have a: "\<not> copy_fails ?e [''tmp'', ''tmpab12cd''] [''out''] (15 * 1024 * 1024) []
      (file_of ''a.py'' 8 ''print(1)'')"
    by (rule not_copy_fails)
      (simp add: progress_defs file_of_def example_env_def cond_defs decodes_utf8_def)
  have b: "\<not> copy_fails ?e [''tmp'', ''tmpab12cd''] [''out''] (15 * 1024 * 1024) []
      (file_of ''b.png'' 3 ''xyz'')"
    by (rule not_copy_fails) (simp add: file_of_def cond_defs)
  have c: "\<not> copy_fails ?e [''tmp'', ''tmpab12cd''] [''out''] (15 * 1024 * 1024) [''.git'']
      (file_of ''config'' 4 ''core'')"
    by (rule not_copy_fails) (simp add: file_of_def cond_defs)
  have io: "\<forall>(d, g) \<in> set (walk_files ?wk).
               \<not> copy_fails ?e [''tmp'', ''tmpab12cd''] [''out''] (15 * 1024 * 1024) d g"
    using a b c by (simp add: walk_files_def)
  obtain processed skipped git_count w' where
    run: "extract_code_files ?e [''tmp'', ''tmpab12cd''] [''out''] 15 ?wk empty_world
            = Inr ((processed, skipped, git_count), w')"
    by (simp add: extract_code_files_def extract_run_def makedirs_def example_env_def)
  have paths: "(\<lambda>(d, g). rel_path_of d (fname g))
        ` set (filter (\<lambda>(d, g). \<not> in_git_dir [''tmp'', ''tmpab12cd''] d (fname g)) (walk_files ?wk))
      = {''a.py'', ''b.png''}"
    by (simp add: walk_files_def file_of_def cond_defs)
  note th = recorded_paths_partition [OF run wf io]
  have "set processed \<inter> fst ` set skipped = {}
          \<and> distinct processed \<and> distinct (map fst skipped)
          \<and> set processed \<union> fst ` set skipped = {''a.py'', ''b.png''}"
    using th unfolding paths .
  with wf show ?thesis
    unfolding run by simp
qed

section \<open>The structure report\<close>

text \<open>The lines of a directory depend on the names of its files, not on their order in
  the listing.\<close>

lemma sort_mset_cong:
  fixes xs ys :: "string list"
  assumes "mset xs = mset ys"
  shows "sort xs = sort ys"
proof (rule properties_for_sort)
  show "mset (sort ys) = mset xs" using assms by simp
  show "sorted (sort ys)" by simp
qed

lemma structure_entry_cong:
  assumes "mset names = mset names'"
  shows "structure_entry root names = structure_entry root names'"
  unfolding structure_entry_def using sort_mset_cong [OF assms] by simp

lemma structure_lines_same_tree:
  assumes "same_tree wk wk'"
  shows "structure_lines wk = structure_lines wk'"
proof -
  have "list_all2 (\<lambda>(root, fs) (root', fs').
            root = root' \<and> mset (map fname fs) = mset (map fname fs')) wk wk'"
    using assms by (simp add: same_tree_def)
  then have "map (\<lambda>(root, fs). structure_entry root (map fname fs)) wk
      = map (\<lambda>(root, fs). structure_entry root (map fname fs)) wk'"
  proof (induction rule: list_all2_induct)
    case Nil
    show ?case by simp
  next
    case (Cons x xs y ys)
    obtain r fs where x: "x = (r, fs)" by (cases x)
    obtain r' fs' where y: "y = (r', fs')" by (cases y)
    from Cons.hyps(1) have "r = r'" and "mset (map fname fs) = mset (map fname fs')"
      by (simp_all add: x y)
    then have "structure_entry r (map fname fs) = structure_entry r' (map fname fs')"
      by (simp add: structure_entry_cong)
    with Cons.IH show ?case by (simp add: x y)
  qed
  then show ?thesis by (simp add: structure_lines_def)
qed

text \<open>When the function returns, the file holds the whole report; and it returns when the
  file can be opened, every line can be encoded and nothing breaks the writing.\<close>

lemma concat_structure_writes:
  "concat (structure_writes stamp wk) = structure_text stamp wk"
  by (simp add: structure_writes_def structure_text_def structure_body_def)

lemma generate_file_structure_result:
  assumes "generate_file_structure e wk output_file w = Inr w1"
  shows "w1 = w\<lparr>tick := Suc (tick w),
                 files := (files w)(output_file \<mapsto> structure_text (clock e (tick w)) wk)\<rparr>"
  using assms
  by (auto simp: generate_file_structure_def now_def Let_def concat_structure_writes
      split: if_splits option.splits)

lemma generate_file_structure_returns:
  assumes "can_write e output_file" and "write_breaks e output_file = None"
    and "list_all decodes_utf8 (structure_writes (clock e (tick w)) wk)"
  shows "generate_file_structure e wk output_file w
           = Inr (w\<lparr>tick := Suc (tick w),
                    files := (files w)(output_file \<mapsto> structure_text (clock e (tick w)) wk)\<rparr>)"
proof -
  have "takeWhile decodes_utf8 (structure_writes (clock e (tick w)) wk)
      = structure_writes (clock e (tick w)) wk"
    using assms(3) by (simp add: list_all_iff)
  note tw = this
  show ?thesis
    unfolding generate_file_structure_def now_def Let_def prod.case tw
    using assms(1,2) by (simp add: concat_structure_writes)
qed

lemma title_lines_encode:
  "decodes_utf8 (structure_title @ newline)"
  "decodes_utf8 (structure_time_label @ ''2024-01-01 00:00:00'' @ newline @ newline)"
  "decodes_utf8 (structure_time_label @ ''2024-01-01 00:00:01'' @ newline @ newline)"
  by (simp_all add: decodes_utf8_def structure_title_def structure_time_label_def newline_def
      cont_byte_def)

lemma listing_encodes:
  "list_all decodes_utf8 (structure_lines listing_a)"
  "list_all decodes_utf8 (structure_lines listing_b)"
  by (simp_all add: structure_lines_def structure_entry_def listing_a_def listing_b_def
      file_of_def count_char_def sep_def newline_def decodes_utf8_def)

text \<open>
  C2 as it is stated does not hold: the second line of the report is the time at which it
  is written. Two runs over the same tree, one second apart, write different files.
\<close>

theorem structure_report_counterexample:
  "(case generate_file_structure (example_env True []) listing_a [''out'', ''first.txt'']
           empty_world of
      Inl err \<Rightarrow> False
    | Inr w1 \<Rightarrow>
        (case generate_file_structure (example_env True []) listing_a [''out'', ''second.txt'']
                w1 of
           Inl err \<Rightarrow> False
         | Inr w2 \<Rightarrow> files w2 [''out'', ''first.txt''] \<noteq> files w2 [''out'', ''second.txt'']))"
proof -
  let ?e = "example_env True []"
  have env: "can_write ?e p" "write_breaks ?e p = None"
    "clock ?e 0 = ''2024-01-01 00:00:00''" "clock ?e (Suc 0) = ''2024-01-01 00:00:01''" for p
    by (simp_all add: example_env_def digit_char_def)
  have enc: "list_all decodes_utf8 (structure_writes ''2024-01-01 00:00:00'' listing_a)"
    "list_all decodes_utf8 (structure_writes ''2024-01-01 00:00:01'' listing_a)"
    by (simp_all only: structure_writes_def list_all_append list.pred_inject title_lines_encode
        listing_encodes simp_thms)
  have first: "generate_file_structure ?e listing_a [''out'', ''first.txt''] empty_world
      = Inr (empty_world\<lparr>tick := Suc (tick empty_world),
               files := (files empty_world)([''out'', ''first.txt''] \<mapsto>
                  structure_text (clock ?e (tick empty_world)) listing_a)\<rparr>)"
    (is "_ = Inr ?w1")
    by (rule generate_file_structure_returns) (simp_all add: env enc empty_world_def)
  have second: "generate_file_structure ?e listing_a [''out'', ''second.txt''] ?w1
      = Inr (?w1\<lparr>tick := Suc (tick ?w1),
               files := (files ?w1)([''out'', ''second.txt''] \<mapsto>
                  structure_text (clock ?e (tick ?w1)) listing_a)\<rparr>)"
    by (rule generate_file_structure_returns) (simp_all add: env enc empty_world_def)
  show ?thesis
    unfolding first sum.case second
    by (simp add: env empty_world_def structure_text_def)
qed

text \<open>
  C2, amended: let two runs of the structure report both return, the second after the
  first, over two listings of the same tree that name the directories in the same order
  (the code sorts the files of a directory and leaves the directories in the order of the
  walk). Then the two files hold the same bytes except for the time in the second line:
  the title, then the line with the time that the clock shows at that run, an empty line,
  and the same listing, also when the two listings return the files of a directory in
  different orders. The two files are byte-identical when the clock shows the same second
  at both runs.
\<close>

theorem structure_report_repeatable:
  assumes first: "generate_file_structure e wk file1 w = Inr w1"
    and second: "generate_file_structure e wk' file2 w1 = Inr w2"
    and same: "same_tree wk wk'"
  shows "files w1 file1 = Some ((structure_title @ newline)
            @ (structure_time_label @ clock e (tick w) @ newline @ newline)
            @ structure_body wk)
         \<and> files w2 file2 = Some ((structure_title @ newline)
            @ (structure_time_label @ clock e (Suc (tick w)) @ newline @ newline)
            @ structure_body wk)
         \<and> (clock e (Suc (tick w)) = clock e (tick w) \<longrightarrow> files w2 file2 = files w1 file1)"
proof -
  have body: "structure_body wk' = structure_body wk"
    using same by (simp add: structure_body_def structure_lines_same_tree)
  note r1 = generate_file_structure_result [OF first]
  note r2 = generate_file_structure_result [OF second]
  have one: "files w1 file1 = Some (structure_text (clock e (tick w)) wk)"
    and t: "tick w1 = Suc (tick w)"
    by (simp_all add: r1)
  have two: "files w2 file2 = Some (structure_text (clock e (tick w1)) wk')"
    by (subst r2) simp
  show ?thesis
    unfolding one two t by (simp add: structure_text_def body)
qed

theorem structure_report_repeatable_witness:
  "same_tree listing_a listing_b
   \<and> (case generate_file_structure (example_env True []) listing_a [''out'', ''first.txt'']
             empty_world of
        Inl err \<Rightarrow> False
      | Inr w1 \<Rightarrow>
          (case generate_file_structure (example_env True []) listing_b [''out'', ''second.txt'']
                  w1 of
             Inl err \<Rightarrow> False
           | Inr w2 \<Rightarrow>
               files w2 [''out'', ''first.txt''] = Some ((structure_title @ newline)
                  @ (structure_time_label @ ''2024-01-01 00:00:00'' @ newline @ newline)
                  @ ''  a.txt'' @ newline @ ''  b.txt'' @ newline
                  @ ''  src/'' @ newline @ ''    m.py'' @ newline)
               \<and> files w2 [''out'', ''second.txt''] = Some ((structure_title @ newline)
                  @ (structure_time_label @ ''2024-01-01 00:00:01'' @ newline @ newline)
                  @ ''  a.txt'' @ newline @ ''  b.txt'' @ newline
                  @ ''  src/'' @ newline @ ''    m.py'' @ newline)))"
proof -
  let ?e = "example_env True []"
  define w1 where "w1 = empty_world\<lparr>tick := Suc (tick empty_world),
      files := (files empty_world)([''out'', ''first.txt''] \<mapsto>
                  structure_text (clock ?e (tick empty_world)) listing_a)\<rparr>"
  define w2 where "w2 = w1\<lparr>tick := Suc (tick w1),
      files := (files w1)([''out'', ''second.txt''] \<mapsto>
                  structure_text (clock ?e (tick w1)) listing_b)\<rparr>"
  have same: "same_tree listing_a listing_b"
    by (simp add: same_tree_def listing_a_def listing_b_def file_of_def)
  have env: "can_write ?e p" "write_breaks ?e p = None"
    "clock ?e 0 = ''2024-01-01 00:00:00''" "clock ?e (Suc 0) = ''2024-01-01 00:00:01''" for p
    by (simp_all add: example_env_def digit_char_def)
  have enc: "list_all decodes_utf8 (structure_writes ''2024-01-01 00:00:00'' listing_a)"
    "list_all decodes_utf8 (structure_writes ''2024-01-01 00:00:01'' listing_b)"
    by (simp_all only: structure_writes_def list_all_append list.pred_inject title_lines_encode
        listing_encodes simp_thms)
  have ticks: "tick empty_world = 0" "tick w1 = Suc 0"
    by (simp_all add: w1_def empty_world_def)
  have first: "generate_file_structure ?e listing_a [''out'', ''first.txt''] empty_world = Inr w1"
    unfolding w1_def
    by (rule generate_file_structure_returns) (simp_all add: env enc ticks)
  have second: "generate_file_structure ?e listing_b [''out'', ''second.txt''] w1 = Inr w2"
    unfolding w2_def
    by (rule generate_file_structure_returns) (simp_all add: env enc ticks)
  have keep: "files w2 [''out'', ''first.txt''] = files w1 [''out'', ''first.txt'']"
    by (simp add: w2_def)
  have body: "structure_body listing_a
      = ''  a.txt'' @ newline @ ''  b.txt'' @ newline @ ''  src/'' @ newline @ ''    m.py'' @ newline"
    by (simp add: structure_body_def structure_lines_def structure_entry_def listing_a_def
        file_of_def count_char_def sep_def newline_def)
  have clk: "clock ?e (tick empty_world) = ''2024-01-01 00:00:00''"
    "clock ?e (Suc (tick empty_world)) = ''2024-01-01 00:00:01''"
    by (simp_all add: env ticks)
  note th = structure_report_repeatable [OF first second same]
  from th have "files w1 [''out'', ''first.txt''] = Some ((structure_title @ newline)
            @ (structure_time_label @ clock ?e (tick empty_world) @ newline @ newline)
            @ structure_body listing_a)"
    by blast
  then have a: "files w2 [''out'', ''first.txt''] = Some ((structure_title @ newline)
                  @ (structure_time_label @ ''2024-01-01 00:00:00'' @ newline @ newline)
                  @ ''  a.txt'' @ newline @ ''  b.txt'' @ newline
                  @ ''  src/'' @ newline @ ''    m.py'' @ newline)"
    by (simp only: keep body clk)
  from th have "files w2 [''out'', ''second.txt''] = Some ((structure_title @ newline)
            @ (structure_time_label @ clock ?e (Suc (tick empty_world)) @ newline @ newline)
            @ structure_body listing_a)"
    by blast
  then have b: "files w2 [''out'', ''second.txt''] = Some ((structure_title @ newline)
                  @ (structure_time_label @ ''2024-01-01 00:00:01'' @ newline @ newline)
                  @ ''  a.txt'' @ newline @ ''  b.txt'' @ newline
                  @ ''  src/'' @ newline @ ''    m.py'' @ newline)"
    by (simp only: body clk)
  have "(case generate_file_structure ?e listing_a [''out'', ''first.txt''] empty_world of
        Inl err \<Rightarrow> False
      | Inr w1 \<Rightarrow>
          (case generate_file_structure (example_env True []) listing_b [''out'', ''second.txt'']
                  w1 of
             Inl err \<Rightarrow> False
           | Inr w2 \<Rightarrow>
               files w2 [''out'', ''first.txt''] = Some ((structure_title @ newline)
                  @ (structure_time_label @ ''2024-01-01 00:00:00'' @ newline @ newline)
                  @ ''  a.txt'' @ newline @ ''  b.txt'' @ newline
                  @ ''  src/'' @ newline @ ''    m.py'' @ newline)
               \<and> files w2 [''out'', ''second.txt''] = Some ((structure_title @ newline)
                  @ (structure_time_label @ ''2024-01-01 00:00:01'' @ newline @ newline)
                  @ ''  a.txt'' @ newline @ ''  b.txt'' @ newline
                  @ ''  src/'' @ newline @ ''    m.py'' @ newline)))"
    unfolding first sum.case second using a b by (rule conjI)
  with same show ?thesis by (rule conjI)
qed

section \<open>The example environment\<close>

lemma name_repo: "get_repo_name_from_url (example_env b wk) ''https://github.com/owner/repo.git'' = Some ''repo''"
  by (simp add: get_repo_name_from_url_def example_env_def strip_sep_def sep_def endswith_def)

lemma clone_ok: "clone_repository (example_env True wk) url"
  by (simp add: clone_repository_def git_paths_def example_env_def)

lemma clone_bad: "\<not> clone_repository (example_env False wk) url"
  by (simp add: clone_repository_def git_paths_def example_env_def)

lemma env_simps:
  "can_write (example_env b wk) p" "can_mkdir (example_env b wk) p"
  "cloned (example_env b wk) url = wk" "tmp_dir (example_env b wk) = [''tmp'', ''tmpab12cd'']"
  "write_breaks (example_env b wk) p = None" "can_chmod (example_env b wk) p"
  by (simp_all add: example_env_def)

section \<open>The breakdown of the summary\<close>

text \<open>The run and the summary for a clone that holds only \<open>.gitignore\<close>.\<close>

lemma gitignore_run:
  "extract_run (example_env True gitignore_tree) [''tmp'', ''tmpab12cd''] out_dir 15 gitignore_tree w
     = Inr ((init_xstate (w\<lparr>dirs := dirs w \<union> set (prefixes out_dir)\<rparr>))
             \<lparr>skipped_files := [(''.gitignore'', 0)], skipped_git_files := 1\<rparr>)"
  by (simp add: extract_run_def makedirs_def env_simps extract_loop_def init_xstate_def
      process_file_def file_of_def gitignore_tree_def cond_defs)

lemma gitignore_structure:
  assumes "tick w = Suc 0"
  shows "generate_file_structure (example_env True gitignore_tree) gitignore_tree p w
     = Inr (w\<lparr>tick := Suc (Suc 0),
              files := (files w)(p \<mapsto> structure_text ''2024-01-01 00:00:01'' gitignore_tree)\<rparr>)"
proof -
  let ?e = "example_env True gitignore_tree"
  have clk: "clock ?e (tick w) = ''2024-01-01 00:00:01''"
    by (simp add: assms example_env_def digit_char_def)
  have lines: "list_all decodes_utf8 (structure_lines gitignore_tree)"
    by (simp add: structure_lines_def structure_entry_def gitignore_tree_def file_of_def
        count_char_def sep_def newline_def decodes_utf8_def)
  have enc: "list_all decodes_utf8 (structure_writes ''2024-01-01 00:00:01'' gitignore_tree)"
    by (simp only: structure_writes_def list_all_append list.pred_inject title_lines_encode
        lines simp_thms)
  have "generate_file_structure ?e gitignore_tree p w
      = Inr (w\<lparr>tick := Suc (tick w),
               files := (files w)(p \<mapsto> structure_text (clock ?e (tick w)) gitignore_tree)\<rparr>)"
    by (rule generate_file_structure_returns) (simp_all add: env_simps clk enc)
  then show ?thesis unfolding clk unfolding assms .
qed

lemma gitignore_summary_text:
  "summary_text (example_env True gitignore_tree) ''repo'' ''https://github.com/owner/repo.git''
      0 2 15 [] [(''.gitignore'', 0)] 1
     = (sum_title_label @ ''repo'' @ newline) @
       (sum_url_label @ ''https://github.com/owner/repo.git'' @ newline) @
       (sum_start_label @ ''2024-01-01 00:00:00'' @ newline) @
       (sum_end_label @ ''2024-01-01 00:00:02'' @ newline) @
       (sum_duration_label @ ''0.00'' @ sum_seconds @ newline @ newline) @
       (sum_processed_label @ ''0'' @ newline) @
       (sum_skipped_label @ ''1'' @ newline @ newline) @
       (sum_detail_label @ newline) @
       (sum_git_label @ ''1'' @ sum_unit @ newline) @
       (sum_ext_label @ ''1'' @ sum_unit @ newline) @
       (sum_size_label @ ''15MB): 0'' @ sum_unit @ newline) @
       (sum_others_label @ ''-1'' @ sum_unit @ newline @ newline)"
  by (simp add: summary_text_def count_others_def count_by_extension_def count_by_size_def
      large_files_def str_int_def digit_char_def example_env_def)

text \<open>
  C3 is what the summary should print, and the code misses it. The function
  \<open>extract_code_files\<close> counts each reason in a counter of its own, but it returns only
  the count of git-related files; \<open>process_repository\<close> counts again from the list of
  skipped files: every record with the size 0 as filtered by extension, and the remainder
  after subtracting the git-related count as decode errors. A git-related record has the
  size 0, so it is counted twice. For a clone that holds only \<open>.gitignore\<close> the counters
  of the extraction are 1 git-related file and 0 for each other reason, and the summary
  prints 1 git-related, 1 by extension, 0 oversized and -1 decode errors.
\<close>

theorem summary_breakdown_gitignore:
  "(case extract_run (example_env True gitignore_tree) [''tmp'', ''tmpab12cd'']
           [''out'', ''repo'', ''code_files''] 15 gitignore_tree empty_world of
      Inl err \<Rightarrow> False
    | Inr st \<Rightarrow> skipped_files st = [(''.gitignore'', 0)]
        \<and> skipped_git_files st = 1 \<and> skipped_by_extension st = 0
        \<and> skipped_by_size st = 0 \<and> skipped_by_decode_error st = 0)
   \<and> (case process_repository (example_env True gitignore_tree)
              ''https://github.com/owner/repo.git'' [''out''] empty_world of
        (result, w) \<Rightarrow> result = Completed
          \<and> files w [''out'', ''repo'', ''repo_processing_summary.txt'']
              = Some ((sum_title_label @ ''repo'' @ newline) @
                   (sum_url_label @ ''https://github.com/owner/repo.git'' @ newline) @
                   (sum_start_label @ ''2024-01-01 00:00:00'' @ newline) @
                   (sum_end_label @ ''2024-01-01 00:00:02'' @ newline) @
                   (sum_duration_label @ ''0.00'' @ sum_seconds @ newline @ newline) @
                   (sum_processed_label @ ''0'' @ newline) @
                   (sum_skipped_label @ ''1'' @ newline @ newline) @
                   (sum_detail_label @ newline) @
                   (sum_git_label @ ''1'' @ sum_unit @ newline) @
                   (sum_ext_label @ ''1'' @ sum_unit @ newline) @
                   (sum_size_label @ ''15MB): 0'' @ sum_unit @ newline) @
                   (sum_others_label @ ''-1'' @ sum_unit @ newline @ newline)))
   \<and> count_by_extension [(''.gitignore'', 0)] = 1
   \<and> count_others 15 [(''.gitignore'', 0)] 1 = - 1"
proof -
  let ?e = "example_env True gitignore_tree"
  have counts: "count_by_extension [(''.gitignore'', 0)] = 1"
    "count_others 15 [(''.gitignore'', 0)] 1 = - 1"
    by (simp_all add: count_others_def count_by_extension_def count_by_size_def)
  have run: "(case extract_run ?e [''tmp'', ''tmpab12cd'']
           [''out'', ''repo'', ''code_files''] 15 gitignore_tree empty_world of
      Inl err \<Rightarrow> False
    | Inr st \<Rightarrow> skipped_files st = [(''.gitignore'', 0)]
        \<and> skipped_git_files st = 1 \<and> skipped_by_extension st = 0
        \<and> skipped_by_size st = 0 \<and> skipped_by_decode_error st = 0)"
    by (simp add: gitignore_run init_xstate_def)
  have "(case process_repository ?e ''https://github.com/owner/repo.git'' [''out''] empty_world of
        (result, w) \<Rightarrow> result = Completed
          \<and> files w [''out'', ''repo'', ''repo_processing_summary.txt'']
              = Some (summary_text ?e ''repo''
                        ''https://github.com/owner/repo.git'' 0 2 15 [] [(''.gitignore'', 0)] 1))"
    by (simp add: process_repository_def name_repo clone_ok env_simps makedirs_def now_def
        gitignore_structure extract_code_files_def gitignore_run init_xstate_def
        empty_world_def numeral_2_eq_2 Let_def)
  then have repo: "(case process_repository ?e ''https://github.com/owner/repo.git'' [''out''] empty_world of
        (result, w) \<Rightarrow> result = Completed
          \<and> files w [''out'', ''repo'', ''repo_processing_summary.txt'']
              = Some ((sum_title_label @ ''repo'' @ newline) @
                   (sum_url_label @ ''https://github.com/owner/repo.git'' @ newline) @
                   (sum_start_label @ ''2024-01-01 00:00:00'' @ newline) @
                   (sum_end_label @ ''2024-01-01 00:00:02'' @ newline) @
                   (sum_duration_label @ ''0.00'' @ sum_seconds @ newline @ newline) @
                   (sum_processed_label @ ''0'' @ newline) @
                   (sum_skipped_label @ ''1'' @ newline @ newline) @
                   (sum_detail_label @ newline) @
                   (sum_git_label @ ''1'' @ sum_unit @ newline) @
                   (sum_ext_label @ ''1'' @ sum_unit @ newline) @
                   (sum_size_label @ ''15MB): 0'' @ sum_unit @ newline) @
                   (sum_others_label @ ''-1'' @ sum_unit @ newline @ newline)))"
    unfolding gitignore_summary_text .
  from run repo counts show ?thesis by blast
qed

section \<open>Repository names\<close>

text \<open>The function computes the name that the specification describes.\<close>

lemma get_repo_name_segments:
  "get_repo_name_from_url e repo_url
     = (if length (url_segments e repo_url) < 2 then None
        else Some (derived_name (url_segments e repo_url)))"
  by (auto simp: get_repo_name_from_url_def url_segments_def derived_name_def Let_def
      split: list.splits)

text \<open>
  C9: when the path of the URL has fewer than two segments the derivation of the name
  fails (the function returns \<open>None\<close>); in that case, and when the derived name (the
  second segment without a trailing \<open>.git\<close>) is empty, \<open>process_repository\<close> returns
  at once: the world after the call is the world before it but for the reading of the
  clock, so no directory and no file is created. For every other URL the function returns
  the derived name, and it is not empty.
\<close>

theorem invalid_url_skipped:
  "(length (url_segments e repo_url) < 2 \<longrightarrow> get_repo_name_from_url e repo_url = None)
   \<and> (length (url_segments e repo_url) < 2 \<or> derived_name (url_segments e repo_url) = []
        \<longrightarrow> process_repository e repo_url output_base_dir w
              = (InvalidURL, w\<lparr>tick := Suc (tick w)\<rparr>))
   \<and> (\<not> (length (url_segments e repo_url) < 2 \<or> derived_name (url_segments e repo_url) = [])
        \<longrightarrow> get_repo_name_from_url e repo_url = Some (derived_name (url_segments e repo_url))
            \<and> derived_name (url_segments e repo_url) \<noteq> [])"
  by (simp add: get_repo_name_segments process_repository_def now_def)

theorem invalid_url_skipped_witness:
  "length (url_segments (example_env True []) ''https://github.com/owner'') < 2
   \<and> process_repository (example_env True []) ''https://github.com/owner'' [''out''] empty_world
       = (InvalidURL, empty_world\<lparr>tick := Suc (tick empty_world)\<rparr>)
   \<and> derived_name (url_segments (example_env True []) ''https://github.com/owner/.git'') = []
   \<and> process_repository (example_env True []) ''https://github.com/owner/.git'' [''out''] empty_world
       = (InvalidURL, empty_world\<lparr>tick := Suc (tick empty_world)\<rparr>)
   \<and> get_repo_name_from_url (example_env True []) ''https://github.com/owner/repo.git'' = Some ''repo''"
proof -
  let ?e = "example_env True []"
  have s1: "url_segments ?e ''https://github.com/owner'' = [''owner'']"
    by (simp add: url_segments_def example_env_def strip_sep_def sep_def)
  have s2: "url_segments ?e ''https://github.com/owner/.git'' = [''owner'', ''.git'']"
    by (simp add: url_segments_def example_env_def strip_sep_def sep_def)
  have s3: "url_segments ?e ''https://github.com/owner/repo.git'' = [''owner'', ''repo.git'']"
    by (simp add: url_segments_def example_env_def strip_sep_def sep_def)
  have d2: "derived_name [''owner'', ''.git''] = []"
    by (simp add: derived_name_def endswith_def)
  have d3: "derived_name [''owner'', ''repo.git''] = ''repo''"
    by (simp add: derived_name_def endswith_def)
  have a: "length (url_segments ?e ''https://github.com/owner'') < 2"
    by (simp add: s1)
  have b: "derived_name (url_segments ?e ''https://github.com/owner/.git'') = []"
    by (simp add: s2 d2)
  have c: "\<not> (length (url_segments ?e ''https://github.com/owner/repo.git'') < 2
        \<or> derived_name (url_segments ?e ''https://github.com/owner/repo.git'') = [])"
    by (simp add: s3 d3)
  have r1: "process_repository ?e ''https://github.com/owner'' [''out''] empty_world
       = (InvalidURL, empty_world\<lparr>tick := Suc (tick empty_world)\<rparr>)"
    using invalid_url_skipped [of ?e "''https://github.com/owner''" "[''out'']" empty_world] a
    by blast
  have r2: "process_repository ?e ''https://github.com/owner/.git'' [''out''] empty_world
       = (InvalidURL, empty_world\<lparr>tick := Suc (tick empty_world)\<rparr>)"
    using invalid_url_skipped [of ?e "''https://github.com/owner/.git''" "[''out'']" empty_world] b
    by blast
  have r3: "get_repo_name_from_url ?e ''https://github.com/owner/repo.git'' = Some ''repo''"
    using invalid_url_skipped [of ?e "''https://github.com/owner/repo.git''"] c
    unfolding s3 d3 by blast
  from a r1 b r2 r3 show ?thesis by blast
qed

section \<open>A failed clone\<close>

text \<open>The clone succeeds when one of the git executables, or else the WSL method, exits
  with status 0.\<close>

lemma try_git_paths_iff:
  "try_git_paths e repo_url ps \<longleftrightarrow> (\<exists>p \<in> set ps. run_git e p repo_url = Exit 0)"
  by (induction ps) (auto split: run_result.splits)

lemma clone_repository_iff:
  "clone_repository e repo_url
     \<longleftrightarrow> (\<exists>p \<in> set git_paths. run_git e p repo_url = Exit 0) \<or> run_wsl e repo_url = Exit 0"
  by (auto simp: clone_repository_def try_git_paths_iff split: run_result.splits)

text \<open>
  C8 as it is stated does not hold: the output directory of the repository is created with
  \<open>exist_ok=True\<close> and never emptied, so what an earlier run for the same name has left
  there stays. After the failed clone the directory holds the failure record and the old
  summary, and the directory \<open>code_files\<close> is still there.
\<close>

theorem stale_output_counterexample:
  "(case process_repository (example_env False []) ''https://github.com/owner/repo.git''
           [''out''] previous_world of
      (result, w) \<Rightarrow>
        result = CloneFailed
        \<and> files w [''out'', ''repo'', ''repo_clone_failed.txt''] \<noteq> None
        \<and> files w [''out'', ''repo'', ''repo_processing_summary.txt''] = Some ''old summary''
        \<and> [''out'', ''repo'', ''code_files''] \<in> dirs w)"
  by (simp add: process_repository_def name_repo clone_bad env_simps makedirs_def now_def
      previous_world_def)

text \<open>
  C8, amended: let the URL give a non-empty name, every clone method fail, and the output
  directory of the repository and the failure record be writable. Then
  \<open>process_repository\<close> returns through the branch of the failed clone, without an
  error: it has created the output directory of the repository and written one file,
  \<open>name_clone_failed.txt\<close>, with the time, the URL and the fixed message; no other file
  and no other directory is created or changed, in particular no directory \<open>code_files\<close>
  and no structure or summary file. If no file was below the output directory of the
  repository before the call, the failure record is the only file below it afterwards.
\<close>

theorem clone_failure_record:
  assumes name: "get_repo_name_from_url e repo_url = Some repo_name" "repo_name \<noteq> []"
    and git_fails: "\<forall>p \<in> set git_paths. run_git e p repo_url \<noteq> Exit 0"
    and wsl_fails: "run_wsl e repo_url \<noteq> Exit 0"
    and mk: "can_mkdir e (output_base_dir @ [repo_name])"
    and wr: "can_write e (output_base_dir @ [repo_name, repo_name @ ''_clone_failed.txt''])"
  shows "\<exists>w'. process_repository e repo_url output_base_dir w = (CloneFailed, w')
           \<and> files w' = (files w)(output_base_dir @ [repo_name, repo_name @ ''_clone_failed.txt'']
                \<mapsto> (fail_time_label @ clock e (Suc (tick w)) @ newline)
                   @ (fail_url_label @ repo_url @ newline @ newline)
                   @ (fail_message @ newline))
           \<and> dirs w' = dirs w \<union> set (prefixes (output_base_dir @ [repo_name]))
           \<and> (output_base_dir @ [repo_name, ''code_files''] \<in> dirs w'
                \<longrightarrow> output_base_dir @ [repo_name, ''code_files''] \<in> dirs w)
           \<and> ((\<forall>p \<in> dom (files w). \<not> prefix (output_base_dir @ [repo_name]) p)
                \<longrightarrow> {p \<in> dom (files w'). prefix (output_base_dir @ [repo_name]) p}
                    = {output_base_dir @ [repo_name, repo_name @ ''_clone_failed.txt'']})"
proof -
  let ?dir = "output_base_dir @ [repo_name]"
  let ?file = "output_base_dir @ [repo_name, repo_name @ ''_clone_failed.txt'']"
  let ?text = "(fail_time_label @ clock e (Suc (tick w)) @ newline)
                   @ (fail_url_label @ repo_url @ newline @ newline)
                   @ (fail_message @ newline)"
  let ?w' = "w\<lparr>tick := Suc (Suc (tick w)), dirs := dirs w \<union> set (prefixes ?dir),
               files := (files w)(?file \<mapsto> ?text)\<rparr>"
  have no_clone: "\<not> clone_repository e repo_url"
    using git_fails wsl_fails by (simp add: clone_repository_iff)
  have run: "process_repository e repo_url output_base_dir w = (CloneFailed, ?w')"
    using name mk wr no_clone
    by (simp add: process_repository_def makedirs_def now_def failure_text_def)
  have not_prefix: "\<not> prefix (?dir @ [''code_files'']) ?dir"
    by (simp add: prefix_def)
  have code_dir: "output_base_dir @ [repo_name, ''code_files''] \<in> dirs ?w'
                \<longrightarrow> output_base_dir @ [repo_name, ''code_files''] \<in> dirs w"
    using not_prefix by simp
  have under: "prefix ?dir ?file"
    by (simp add: prefix_def)
  have only: "(\<forall>p \<in> dom (files w). \<not> prefix ?dir p)
                \<longrightarrow> {p \<in> dom (files ?w'). prefix ?dir p} = {?file}"
    using under by auto
  show ?thesis
    using run code_dir only by (intro exI [of _ ?w']) simp
qed


theorem clone_failure_record_witness:
  "get_repo_name_from_url (example_env False []) ''https://github.com/owner/repo.git'' = Some ''repo''
   \<and> run_wsl (example_env False []) ''https://github.com/owner/repo.git'' \<noteq> Exit 0
   \<and> (case process_repository (example_env False []) ''https://github.com/owner/repo.git''
             [''out''] empty_world of
        (result, w) \<Rightarrow>
          result = CloneFailed
          \<and> dom (files w) = {[''out'', ''repo'', ''repo_clone_failed.txt'']}
          \<and> files w [''out'', ''repo'', ''repo_clone_failed.txt'']
              = Some ((fail_time_label @ ''2024-01-01 00:00:01'' @ newline)
                      @ (fail_url_label @ ''https://github.com/owner/repo.git'' @ newline @ newline)
                      @ (fail_message @ newline))
          \<and> dirs w = {[], [''out''], [''out'', ''repo'']})"
proof -
  let ?e = "example_env False []"
  let ?url = "''https://github.com/owner/repo.git''"
  have n1: "get_repo_name_from_url ?e ?url = Some ''repo''"
    by (rule name_repo)
  have n2: "''repo'' \<noteq> []"
    by simp
  have g: "\<forall>p \<in> set git_paths. run_git ?e p ?url \<noteq> Exit 0"
    by (simp add: example_env_def)
  have ws: "run_wsl ?e ?url \<noteq> Exit 0"
    by (simp add: example_env_def)
  have mk: "can_mkdir ?e ([''out''] @ [''repo''])"
    by (rule env_simps)
  have wr: "can_write ?e ([''out''] @ [''repo'', ''repo'' @ ''_clone_failed.txt''])"
    by (rule env_simps)
  have clk: "clock ?e (Suc (tick empty_world)) = ''2024-01-01 00:00:01''"
    by (simp add: example_env_def empty_world_def digit_char_def)
  from clone_failure_record [OF n1 n2 g ws mk wr, of empty_world]
  obtain w' where run: "process_repository ?e ?url [''out''] empty_world = (CloneFailed, w')"
    and f: "files w' = (files empty_world)([''out''] @ [''repo'', ''repo'' @ ''_clone_failed.txt'']
                \<mapsto> (fail_time_label @ clock ?e (Suc (tick empty_world)) @ newline)
                   @ (fail_url_label @ ?url @ newline @ newline)
                   @ (fail_message @ newline))"
    and d: "dirs w' = dirs empty_world \<union> set (prefixes ([''out''] @ [''repo'']))"
    by blast
  have c: "dom (files w') = {[''out'', ''repo'', ''repo_clone_failed.txt'']}
          \<and> files w' [''out'', ''repo'', ''repo_clone_failed.txt'']
              = Some ((fail_time_label @ ''2024-01-01 00:00:01'' @ newline)
                      @ (fail_url_label @ ?url @ newline @ newline)
                      @ (fail_message @ newline))
          \<and> dirs w' = {[], [''out''], [''out'', ''repo'']}"
    unfolding f d clk by (auto simp: empty_world_def)
  show ?thesis
    unfolding run using n1 ws c by simp
qed

text \<open>
  What does hold of the breakdown on every run: the four counts that the summary prints add
  up to the number of skipped files, since the last of them is computed as the remainder.
\<close>

theorem summary_counts_sum:
  "int git_count + count_by_extension skipped + count_by_size max_size_mb skipped
     + count_others max_size_mb skipped git_count = int (length skipped)"
  by (simp add: count_others_def)

end
